theory Spec2Isabelle
  imports Main "HOL-Library.Word"
begin

unbundle bit_operations_syntax

section \<open>Worktree management of libgit2 (src/libgit2/worktree.c)\<close>

text \<open>
  The functions of \<^verbatim>\<open>worktree.c\<close> are embedded as HOL functions over an explicit
  file store. A C function that returns an \<^verbatim>\<open>int\<close> status returns an \<^typ>\<open>int\<close>
  here (0 for success, a negative code for an error, and the positive values the code
  uses as answers); a function that changes the file system or a structure returns the
  changed value next to the status. Allocation failure of the string buffers is not
  modelled: the buffer operations always succeed.
\<close>

subsection \<open>Status codes\<close>

text \<open>
  Modelled from the spec: the error codes are declared in \<^verbatim>\<open>git2/errors.h\<close>, which is
  not part of the two source files. The generic error is \<^verbatim>\<open>-1\<close> (the literal the
  code itself returns), a missing object is \<^verbatim>\<open>GIT_ENOTFOUND\<close>, an attempt to lock
  a locked worktree is \<^verbatim>\<open>GIT_ELOCKED\<close>.
\<close>

abbreviation (input) GIT_ERROR :: int where "GIT_ERROR \<equiv> - 1"
abbreviation (input) GIT_ENOTFOUND :: int where "GIT_ENOTFOUND \<equiv> - 3"
abbreviation (input) GIT_EEXISTS :: int where "GIT_EEXISTS \<equiv> - 4"
abbreviation (input) GIT_ELOCKED :: int where "GIT_ELOCKED \<equiv> - 14"

subsection \<open>Path strings\<close>

text \<open>
  Modelled from the spec: the path utilities (join, basename, dirname, relative-to-absolute,
  trimming) are external collaborators of \<^verbatim>\<open>worktree.c\<close> (\<^verbatim>\<open>str.c\<close>, \<^verbatim>\<open>fs_path.c\<close>),
  absent from the source files. Paths are the C strings of the code, with \<^verbatim>\<open>/\<close> as
  the only separator (the POSIX build); a string holds no zero byte.
\<close>

definition is_slash :: "char \<Rightarrow> bool" where
  "is_slash c = (c = CHR ''/'')"

text \<open>
  Modelled from the spec: \<^verbatim>\<open>git_str_joinpath(out, a, b)\<close> joins two path strings with
  exactly one separator between them; an empty \<open>a\<close> gives \<open>b\<close>.
\<close>

definition git_str_joinpath :: "string \<Rightarrow> string \<Rightarrow> string" where
  "git_str_joinpath a b =
     (if a = [] then b
      else (if is_slash (last a) then a else a @ ''/'') @ dropWhile is_slash b)"


text \<open>A path string without its trailing separators.\<close>

definition strip_slashes :: "string \<Rightarrow> string" where
  "strip_slashes p = rev (dropWhile is_slash (rev p))"

text \<open>
  Modelled from the spec: \<^verbatim>\<open>git_fs_path_basename\<close> is the final path segment, as POSIX
  \<^verbatim>\<open>basename\<close> gives it: \<^verbatim>\<open>.\<close> for the empty string, \<^verbatim>\<open>/\<close> for a string of
  slashes, and trailing slashes are ignored.
\<close>

definition git_fs_path_basename :: "string \<Rightarrow> string" where
  "git_fs_path_basename p =
     (if p = [] then ''.''
      else if strip_slashes p = [] then ''/''
      else rev (takeWhile (\<lambda>c. \<not> is_slash c) (rev (strip_slashes p))))"

text \<open>
  Modelled from the spec: \<^verbatim>\<open>git_fs_path_dirname\<close> is the path without its final
  segment, as POSIX \<^verbatim>\<open>dirname\<close> gives it.
\<close>

definition git_fs_path_dirname :: "string \<Rightarrow> string" where
  "git_fs_path_dirname p =
     (if p = [] then ''.''
      else if strip_slashes p = [] then ''/''
      else (let d = rev (dropWhile (\<lambda>c. \<not> is_slash c) (rev (strip_slashes p)))
            in if d = [] then ''.''
               else if strip_slashes d = [] then ''/''
               else strip_slashes d))"

text \<open>
  Modelled from the spec: \<^verbatim>\<open>git_str_rtrim\<close> removes the trailing white space of a
  buffer (space, tab, newline, vertical tab, form feed, carriage return).
\<close>

definition git__isspace :: "char \<Rightarrow> bool" where
  "git__isspace c = (c = CHR '' '' \<or> (9 \<le> (of_char c :: nat) \<and> (of_char c :: nat) \<le> 13))"

definition git_str_rtrim :: "string \<Rightarrow> string" where
  "git_str_rtrim s = rev (dropWhile git__isspace (rev s))"

text \<open>
  Modelled from the spec: \<^verbatim>\<open>git_fs_path_is_relative\<close> (\<^verbatim>\<open>fs_path.h\<close>, outside the
  source files) is the test the link resolver makes before it resolves a content against
  its base. It holds for a path that begins with \<^verbatim>\<open>./\<close> or with \<^verbatim>\<open>../\<close>, and for no
  other.
\<close>

definition git_fs_path_is_relative :: "string \<Rightarrow> bool" where
  "git_fs_path_is_relative p = (take 2 p = ''./'' \<or> take 3 p = ''../'')"

text \<open>The segments of a path string: the pieces between its separators.\<close>

fun split_path :: "string \<Rightarrow> string list" where
  "split_path [] = [[]]"
| "split_path (c # cs) =
     (if is_slash c then [] # split_path cs
      else (case split_path cs of [] \<Rightarrow> [[c]] | s # ss \<Rightarrow> (c # s) # ss))"

text \<open>
  Modelled from the spec: \<^verbatim>\<open>git_fs_path_root\<close> (\<^verbatim>\<open>fs_path.c\<close>, outside the source
  files) gives the offset of the separator that roots a path, or \<^verbatim>\<open>-1\<close> for a path that
  is not rooted. A drive prefix is skipped first: a first byte below 128 followed by a
  colon, or a first byte from 128 on, up to three more such bytes and a colon.
\<close>

definition high_bit :: "char \<Rightarrow> bool" where
  "high_bit c = (128 \<le> (of_char c :: nat))"

definition dos_drive_prefix_length :: "string \<Rightarrow> nat" where
  "dos_drive_prefix_length path =
     (case path of
        [] \<Rightarrow> 0
      | c # cs \<Rightarrow>
          if \<not> high_bit c then (if take 1 cs = '':'' then 2 else 0)
          else (let i = Suc (length (takeWhile high_bit (take 3 cs)))
                in if take 1 (drop i path) = '':'' then i + 1 else 0))"

definition git_fs_path_root :: "string \<Rightarrow> int" where
  "git_fs_path_root path =
     (let offset = dos_drive_prefix_length path
      in if take 1 (drop offset path) = ''/'' then int offset else - 1)"

text \<open>
  Modelled from the spec: \<^verbatim>\<open>git_fs_path_resolve_relative(path, 0)\<close> (\<^verbatim>\<open>fs_path.c\<close>,
  outside the source files) normalises the buffer \<open>path\<close> in place. The first
  \<open>ceiling\<close> bytes are never touched: the root of a rooted path with its separator, or
  the scheme of a path that starts with letters and \<^verbatim>\<open>://\<close>, and nothing otherwise.
  The rest is read segment by segment from the index \<^verbatim>\<open>from\<close> and copied down to the
  index \<^verbatim>\<open>to\<close>: a segment \<^verbatim>\<open>.\<close> is skipped; a segment \<^verbatim>\<open>..\<close> takes the last
  copied segment back, and when there is none it is an error (\<^verbatim>\<open>-1\<close>) if the ceiling
  is not 0, and is otherwise copied and becomes part of the untouched prefix; any other
  segment is copied with the separator that follows it; the separators after a segment
  are skipped.

  In \<open>resolve_loop hard fixed out junk rest\<close> the buffer is \<open>fixed @ out @ junk @ rest\<close>:
  \<open>fixed\<close> ends at \<^verbatim>\<open>base\<close>, \<open>out\<close> at \<^verbatim>\<open>to\<close> and \<open>rest\<close> starts at \<^verbatim>\<open>from\<close>;
  \<open>junk\<close> is what the bytes between \<^verbatim>\<open>to\<close> and \<^verbatim>\<open>from\<close> hold, and \<open>hard\<close> says that
  the ceiling is not 0. On success the buffer is cut at \<^verbatim>\<open>to\<close>; on the error return it
  is left as it is at that moment, with its old length.
\<close>

definition git__isalpha :: "char \<Rightarrow> bool" where
  "git__isalpha c =
     ((65 \<le> (of_char c :: nat) \<and> (of_char c :: nat) \<le> 90)
      \<or> (97 \<le> (of_char c :: nat) \<and> (of_char c :: nat) \<le> 122))"

definition url_prefix_length :: "string \<Rightarrow> nat" where
  "url_prefix_length path =
     (let n = length (takeWhile git__isalpha path)
      in if take 3 (drop n path) = ''://'' then n + 3 else 0)"

definition back_up :: "string \<Rightarrow> string" where
  "back_up out = rev (dropWhile (\<lambda>c. \<not> is_slash c) (dropWhile is_slash (rev out)))"

lemma skip_shorter:
  "length (dropWhile P xs) < Suc (length xs)"
  "length (dropWhile P (dropWhile Q xs)) < Suc (length xs)"
  "length (dropWhile P (drop n (dropWhile Q xs))) < Suc (length xs)"
proof -
  show "length (dropWhile P xs) < Suc (length xs)"
    using length_dropWhile_le [of P xs] by simp
  show "length (dropWhile P (dropWhile Q xs)) < Suc (length xs)"
    using length_dropWhile_le [of P "dropWhile Q xs"] length_dropWhile_le [of Q xs] by simp
  show "length (dropWhile P (drop n (dropWhile Q xs))) < Suc (length xs)"
    using length_dropWhile_le [of P "drop n (dropWhile Q xs)"] length_dropWhile_le [of Q xs]
    by simp
qed

function resolve_loop :: "bool \<Rightarrow> string \<Rightarrow> string \<Rightarrow> string \<Rightarrow> string \<Rightarrow> int \<times> string" where
  "resolve_loop hard fixed out junk [] = (0, fixed @ out)"
| "resolve_loop hard fixed out junk (c # cs) =
     (let seg = takeWhile (\<lambda>x. \<not> is_slash x) (c # cs);
          next = dropWhile (\<lambda>x. \<not> is_slash x) (c # cs)
      in if seg = ''.'' then
           resolve_loop hard fixed out (junk @ seg @ takeWhile is_slash next)
             (dropWhile is_slash next)
         else if seg = ''..'' then
           (if out = [] then
              (if hard then (- 1, fixed @ junk @ c # cs)
               else resolve_loop hard (fixed @ seg @ take 1 next) []
                      (drop (length (seg @ take 1 next)) (junk @ seg @ take 1 next)
                       @ takeWhile is_slash (drop 1 next))
                      (dropWhile is_slash (drop 1 next)))
            else resolve_loop hard fixed (back_up out)
                   (drop (length (back_up out)) out @ junk @ seg @ takeWhile is_slash next)
                   (dropWhile is_slash next))
         else if seg = [] then
           resolve_loop hard fixed out (junk @ takeWhile is_slash (c # cs))
             (dropWhile is_slash (c # cs))
         else
           resolve_loop hard fixed (out @ seg @ take 1 next)
             (drop (length (seg @ take 1 next)) (junk @ seg @ take 1 next)
              @ takeWhile is_slash (drop 1 next))
             (dropWhile is_slash (drop 1 next)))"
  by pat_completeness auto
termination
  by (relation "measure (\<lambda>(hard, fixed, out, junk, rest). length rest)")
     (auto simp: skip_shorter split: if_splits)

declare resolve_loop.simps [simp del]

definition git_fs_path_resolve_relative :: "string \<Rightarrow> int \<times> string" where
  "git_fs_path_resolve_relative path =
     (let ceiling = nat (git_fs_path_root path + 1);
          ceiling = (if ceiling = 0 then url_prefix_length path else ceiling)
      in resolve_loop (ceiling \<noteq> 0) (take ceiling path) [] [] (drop ceiling path))"

text \<open>
  Modelled from the spec: \<^verbatim>\<open>git_fs_path_apply_relative(target, relpath)\<close> (\<^verbatim>\<open>fs_path.c\<close>,
  outside the source files) is
  \<^verbatim>\<open>git_str_joinpath(target, target, relpath) || git_fs_path_resolve_relative(target, 0)\<close>:
  the buffer \<open>target\<close> is joined with \<open>relpath\<close> and normalised, and the status is 0
  when the normalisation succeeds and 1, the value of the \<^verbatim>\<open>||\<close>, when it fails. The
  status comes with the buffer the call leaves behind.
\<close>

definition git_fs_path_apply_relative :: "string \<Rightarrow> string \<Rightarrow> int \<times> string" where
  "git_fs_path_apply_relative target relpath =
     (case git_fs_path_resolve_relative (git_str_joinpath target relpath) of
        (error, path) \<Rightarrow> (if error \<noteq> 0 then 1 else 0, path))"

subsection \<open>The file store\<close>

text \<open>
  Modelled from the spec: the file system the code works on through \<^verbatim>\<open>fs_path.c\<close>,
  \<^verbatim>\<open>futils.c\<close> and \<^verbatim>\<open>posix.h\<close> (existence check, directory listing, whole-file
  read, exclusive-create write, directory creation, recursive removal). A store is an
  association list from resolved paths (the list of segments below the root) to nodes;
  its order is the order in which a directory is enumerated, and a new entry goes to the
  end. There are no symbolic links and no permissions, the root is always a directory,
  and a relative path is taken from the root.
\<close>

datatype node = File string | Dir

type_synonym fs = "(string list \<times> node) list"

text \<open>
  The resolved path of a path string: its segments are walked from the root, an empty
  segment and \<^verbatim>\<open>.\<close> stay in place, \<^verbatim>\<open>..\<close> goes one directory up (and stays at the root).
\<close>

definition walk :: "string list \<Rightarrow> string \<Rightarrow> string list" where
  "walk acc s =
     (if s = [] \<or> s = ''.'' then acc else if s = ''..'' then butlast acc else acc @ [s])"

definition key :: "string \<Rightarrow> string list" where
  "key p = foldl walk [] (split_path p)"

definition node_at :: "fs \<Rightarrow> string list \<Rightarrow> node option" where
  "node_at fs k = (if k = [] then Some Dir else map_of fs k)"

text \<open>
  Modelled from the spec: \<^verbatim>\<open>git_fs_path_exists\<close>, \<^verbatim>\<open>git_fs_path_isfile\<close> and
  \<^verbatim>\<open>git_fs_path_isdir\<close>: the path names a node of any kind, a regular file, a
  directory.
\<close>

definition git_fs_path_exists :: "fs \<Rightarrow> string \<Rightarrow> bool" where
  "git_fs_path_exists fs p = (node_at fs (key p) \<noteq> None)"

definition git_fs_path_isfile :: "fs \<Rightarrow> string \<Rightarrow> bool" where
  "git_fs_path_isfile fs p = (case node_at fs (key p) of Some (File c) \<Rightarrow> True | _ \<Rightarrow> False)"

definition git_fs_path_isdir :: "fs \<Rightarrow> string \<Rightarrow> bool" where
  "git_fs_path_isdir fs p = (node_at fs (key p) = Some Dir)"

text \<open>
  Modelled from the spec: \<^verbatim>\<open>git_fs_path_contains_file(dir, file)\<close>: the join of the two
  names a regular file.
\<close>

definition git_fs_path_contains_file :: "fs \<Rightarrow> string \<Rightarrow> string \<Rightarrow> bool" where
  "git_fs_path_contains_file fs dir file = git_fs_path_isfile fs (git_str_joinpath dir file)"

text \<open>
  The names of the entries of a directory, in the order of the store. Modelled from the
  spec: \<^verbatim>\<open>git_fs_path_is_empty_dir\<close>: the path is a directory without entries.
\<close>

definition children :: "fs \<Rightarrow> string list \<Rightarrow> string list" where
  "children fs k = remdups (map (\<lambda>(k', n). last k') (filter (\<lambda>(k', n). k' \<noteq> [] \<and> butlast k' = k) fs))"

definition git_fs_path_is_empty_dir :: "fs \<Rightarrow> string \<Rightarrow> bool" where
  "git_fs_path_is_empty_dir fs p = (git_fs_path_isdir fs p \<and> children fs (key p) = [])"

text \<open>
  Modelled from the spec: \<^verbatim>\<open>git_fs_path_dirload(&v, path, prefix_len, 0)\<close> loads the
  entries of a directory into a vector, each without its first \<open>prefix_len\<close> characters;
  the callers pass the directory path with its trailing separator, so the vector holds
  the entry names.
\<close>

definition git_fs_path_dirload :: "fs \<Rightarrow> string \<Rightarrow> int \<times> string list" where
  "git_fs_path_dirload fs p =
     (if git_fs_path_isdir fs p then (0, children fs (key p)) else (GIT_ENOTFOUND, []))"

text \<open>
  Modelled from the spec: \<^verbatim>\<open>git_futils_readbuffer\<close> reads a whole regular file; a
  missing path and a directory are errors.
\<close>

definition git_futils_readbuffer :: "fs \<Rightarrow> string \<Rightarrow> int + string" where
  "git_futils_readbuffer fs p =
     (case node_at fs (key p) of Some (File c) \<Rightarrow> Inr c | _ \<Rightarrow> Inl GIT_ENOTFOUND)"

text \<open>A new node can only be made in a directory.\<close>

definition parent_is_dir :: "fs \<Rightarrow> string list \<Rightarrow> bool" where
  "parent_is_dir fs k = (node_at fs (butlast k) = Some Dir)"

text \<open>
  Modelled from the spec: \<^verbatim>\<open>git_futils_writebuffer(buf, path, O_CREAT|O_EXCL|O_WRONLY, 0644)\<close>
  creates the file with the buffer's content and fails when the path exists.
\<close>

definition git_futils_writebuffer_excl :: "fs \<Rightarrow> string \<Rightarrow> string \<Rightarrow> int \<times> fs" where
  "git_futils_writebuffer_excl fs p buf =
     (if node_at fs (key p) = None \<and> parent_is_dir fs (key p)
      then (0, fs @ [(key p, File buf)]) else (GIT_ERROR, fs))"

text \<open>
  Modelled from the spec: \<^verbatim>\<open>p_creat(path, 0644)\<close> followed by \<^verbatim>\<open>p_close\<close>: the file
  is created empty, or truncated when it exists.
\<close>

definition p_creat :: "fs \<Rightarrow> string \<Rightarrow> int \<times> fs" where
  "p_creat fs p =
     (case node_at fs (key p) of
        Some Dir \<Rightarrow> (GIT_ERROR, fs)
      | Some (File c) \<Rightarrow> (0, map (\<lambda>(k, n). if k = key p then (k, File []) else (k, n)) fs)
      | None \<Rightarrow> (if parent_is_dir fs (key p) then (0, fs @ [(key p, File [])]) else (GIT_ERROR, fs)))"

text \<open>Modelled from the spec: \<^verbatim>\<open>p_unlink\<close> removes a regular file.\<close>

definition p_unlink :: "fs \<Rightarrow> string \<Rightarrow> int \<times> fs" where
  "p_unlink fs p =
     (if git_fs_path_isfile fs p then (0, filter (\<lambda>(k, n). k \<noteq> key p) fs) else (GIT_ERROR, fs))"

text \<open>
  Modelled from the spec: \<^verbatim>\<open>git_futils_mkdir(path, 0755, GIT_MKDIR_EXCL)\<close> creates one
  directory below an existing one and fails when the path exists.
\<close>

definition git_futils_mkdir_excl :: "fs \<Rightarrow> string \<Rightarrow> int \<times> fs" where
  "git_futils_mkdir_excl fs p =
     (if node_at fs (key p) \<noteq> None then (GIT_EEXISTS, fs)
      else if parent_is_dir fs (key p) then (0, fs @ [(key p, Dir)])
      else (GIT_ERROR, fs))"

text \<open>
  Modelled from the spec: \<^verbatim>\<open>git_futils_mkdir(path, 0755, GIT_MKDIR_EXCL | GIT_MKDIR_PATH)\<close>
  creates the directory and its missing ancestors, from the root down, and fails when
  the path exists or an ancestor is a regular file. \<open>mkdir_path fs made ss\<close> makes the
  segments \<open>ss\<close> below the resolved path \<open>made\<close>.
\<close>

fun mkdir_path :: "fs \<Rightarrow> string list \<Rightarrow> string list \<Rightarrow> (int \<times> fs)" where
  "mkdir_path fs made [] = (0, fs)"
| "mkdir_path fs made (s # ss) =
     (case node_at fs (made @ [s]) of
        Some Dir \<Rightarrow> mkdir_path fs (made @ [s]) ss
      | Some (File c) \<Rightarrow> (GIT_ERROR, fs)
      | None \<Rightarrow> mkdir_path (fs @ [(made @ [s], Dir)]) (made @ [s]) ss)"

definition git_futils_mkdir_path_excl :: "fs \<Rightarrow> string \<Rightarrow> int \<times> fs" where
  "git_futils_mkdir_path_excl fs p =
     (if node_at fs (key p) \<noteq> None then (GIT_EEXISTS, fs) else mkdir_path fs [] (key p))"


text \<open>The absolute path string of a resolved path.\<close>

definition path_of_key :: "string list \<Rightarrow> string" where
  "path_of_key k = concat (map (\<lambda>s. ''/'' @ s) k)"

text \<open>
  Modelled from the spec: \<^verbatim>\<open>git_fs_path_prettify_dir(out, path, NULL)\<close> gives the
  absolute, resolved form of an existing path, with a trailing separator.
\<close>

definition git_fs_path_prettify_dir :: "fs \<Rightarrow> string \<Rightarrow> int + string" where
  "git_fs_path_prettify_dir fs p =
     (if git_fs_path_exists fs p then Inr (path_of_key (key p) @ ''/'') else Inl GIT_ENOTFOUND)"

subsection \<open>Private-directory validator and link resolver\<close>

text \<open>\<^verbatim>\<open>is_worktree_private_directory\<close>, lines 18 to 23.\<close>

definition is_worktree_private_directory :: "fs \<Rightarrow> string \<Rightarrow> bool" where
  "is_worktree_private_directory fs path =
     (git_fs_path_contains_file fs path ''commondir''
      \<and> git_fs_path_contains_file fs path ''gitdir''
      \<and> git_fs_path_contains_file fs path ''HEAD'')"

text \<open>
  \<^verbatim>\<open>git_worktree__read_link\<close>, lines 106 to 137; \<open>None\<close> is the \<^verbatim>\<open>NULL\<close> the code
  returns on its error path. Line 126 leaves for that path when the status of
  \<^verbatim>\<open>git_fs_path_apply_relative\<close> is negative; with any other status the buffer is
  returned.
\<close>

definition git_worktree__read_link :: "fs \<Rightarrow> string \<Rightarrow> string \<Rightarrow> string option" where
  "git_worktree__read_link fs base file =
     (case git_futils_readbuffer fs (git_str_joinpath base file) of
        Inl e \<Rightarrow> None
      | Inr content \<Rightarrow>
          (let buf = git_str_rtrim content in
           if \<not> git_fs_path_is_relative buf then Some buf
           else (case git_fs_path_apply_relative base buf of
                   (error, path) \<Rightarrow> if error < 0 then None else Some path)))"

text \<open>
  \<^verbatim>\<open>get_worktree_gitdir_from_private_directory\<close>, lines 26 to 49. The buffer \<open>out\<close> is
  written only on success, so it is returned as an option. \<^verbatim>\<open>git_str_sets\<close> with the
  \<^verbatim>\<open>NULL\<close> of a failed \<^verbatim>\<open>git_worktree__read_link\<close> clears the buffer, and the
  status of line 36 is the comparison \<^verbatim>\<open>git_str_sets(...) < 0\<close>, which is 0. Line 39
  leaves when the status of \<^verbatim>\<open>git_fs_path_apply_relative\<close> is negative; otherwise line
  42 copies the buffer to \<open>out\<close> and the status is that of the copy, 0.
\<close>

definition get_worktree_gitdir_from_private_directory :: "fs \<Rightarrow> string \<Rightarrow> int \<times> string option" where
  "get_worktree_gitdir_from_private_directory fs directory =
     (if \<not> is_worktree_private_directory fs directory then (- 1, None)
      else (let buf = (case git_worktree__read_link fs directory ''gitdir'' of
                         None \<Rightarrow> [] | Some l \<Rightarrow> l)
            in case git_fs_path_apply_relative buf ''..'' of
                 (error, buf') \<Rightarrow> if error < 0 then (error, None) else (0, Some buf')))"

subsection \<open>Registry scanner: list\<close>

text \<open>
  Modelled from the spec: \<^verbatim>\<open>git_vector_remove(v, idx)\<close> removes the element at
  \<open>idx\<close> and shifts the later elements down by one; \<^verbatim>\<open>git_vector_foreach(v, i, elem)\<close>
  is the loop \<^verbatim>\<open>for (i = 0; i < v->length && (elem = v->contents[i], 1); i++)\<close>. Both
  are declared in \<^verbatim>\<open>vector.h\<close>, outside the source files.
\<close>

definition git_vector_remove :: "'a list \<Rightarrow> nat \<Rightarrow> 'a list" where
  "git_vector_remove v idx = (if idx < length v then take idx v @ drop (Suc idx) v else v)"

text \<open>
  The loop of \<^verbatim>\<open>git_worktree_list\<close>, lines 83 to 96: \<open>i\<close> is the loop index and
  \<open>worktrees\<close> the vector, which the body changes while the loop runs over it. \<open>path\<close>
  is the path of \<^verbatim>\<open>worktrees/\<close> (the buffer truncated to \<open>len\<close>).
\<close>

function list_loop :: "fs \<Rightarrow> string \<Rightarrow> nat \<Rightarrow> string list \<Rightarrow> int \<times> string list" where
  "list_loop fs path i worktrees =
     (if i < length worktrees then
        (if \<not> is_worktree_private_directory fs (path @ worktrees ! i)
         then list_loop fs path (Suc i) (git_vector_remove worktrees i)
         else (case get_worktree_gitdir_from_private_directory fs (path @ worktrees ! i) of
                 (error, worktree_dir) \<Rightarrow>
                   if error < 0 then (error, [])
                   else list_loop fs path (Suc i) (worktrees[i := worktrees ! i])))
      else (0, worktrees))"
  by pat_completeness auto
termination
  by (relation "measure (\<lambda>(fs, path, i, worktrees). length worktrees - i)")
     (auto simp: git_vector_remove_def)

declare list_loop.simps [simp del]

text \<open>
  Modelled from the spec: \<^verbatim>\<open>struct git_repository\<close> is declared in \<^verbatim>\<open>repository.h\<close>,
  outside the source files. The code reads its common directory and, through
  \<^verbatim>\<open>git_repository_workdir\<close>, its working directory, which a bare repository does not
  have.
\<close>

record git_repository =
  commondir :: string
  workdir :: "string option"

text \<open>
  \<^verbatim>\<open>git_worktree_list\<close>, lines 51 to 104: the status and the string array \<open>wts\<close>,
  which is empty on every exit but the last.
\<close>

definition git_worktree_list :: "fs \<Rightarrow> git_repository \<Rightarrow> int \<times> string list" where
  "git_worktree_list fs repo =
     (let path = git_str_joinpath (commondir repo) ''worktrees/'' in
      if \<not> git_fs_path_exists fs path \<or> git_fs_path_is_empty_dir fs path then (0, [])
      else (case git_fs_path_dirload fs path of
              (error, worktrees) \<Rightarrow>
                if error < 0 then (error, []) else list_loop fs path 0 worktrees))"

subsection \<open>The worktree entity and the lock query\<close>

text \<open>
  Modelled from the spec: \<^verbatim>\<open>struct git_worktree\<close> is declared in \<^verbatim>\<open>worktree.h\<close>,
  outside the source files; its fields are those the code reads and writes.
\<close>

record git_worktree =
  name :: string
  worktree_path :: string
  gitlink_path :: string
  gitdir_path :: string
  commondir_path :: string
  parent_path :: "string option"
  locked :: bool

text \<open>
  \<^verbatim>\<open>git_worktree__is_locked\<close>, lines 656 to 678. \<open>want_reason\<close> says whether the
  caller passed a reason buffer; the second component is that buffer after the call
  (cleared first, then filled from the file).
\<close>

definition git_worktree__is_locked :: "fs \<Rightarrow> bool \<Rightarrow> git_worktree \<Rightarrow> int \<times> string" where
  "git_worktree__is_locked fs want_reason wt =
     (let path = git_str_joinpath (gitdir_path wt) ''locked'';
          is_locked = git_fs_path_exists fs path
      in if is_locked \<and> want_reason then
           (case git_futils_readbuffer fs path of
              Inl error \<Rightarrow> (error, [])
            | Inr reason \<Rightarrow> (1, reason))
         else (if is_locked then 1 else 0, []))"

text \<open>
  \<^verbatim>\<open>git_worktree_is_locked\<close>, lines 680 to 697: the public wrapper, which converts the
  caller's buffer and calls the function above.
\<close>

definition git_worktree_is_locked :: "fs \<Rightarrow> bool \<Rightarrow> git_worktree \<Rightarrow> int \<times> string" where
  "git_worktree_is_locked fs want_reason wt = git_worktree__is_locked fs want_reason wt"

text \<open>
  Modelled from the spec: \<^verbatim>\<open>git_path_validate_length\<close> checks a path against the
  platform's length limit (\<^verbatim>\<open>path.h\<close>, outside the source files); the limit is taken
  as 4096 characters.
\<close>

definition git_path_validate_length :: "string \<Rightarrow> int" where
  "git_path_validate_length p = (if length p \<le> 4096 then 0 else - 1)"

text \<open>
  \<^verbatim>\<open>open_worktree_dir\<close>, lines 165 to 225. On an error the half-built structure is
  freed and \<open>out\<close> is left alone (\<open>None\<close>).
\<close>

definition open_worktree_dir :: "fs \<Rightarrow> string option \<Rightarrow> string \<Rightarrow> string \<Rightarrow> int \<times> git_worktree option" where
  "open_worktree_dir fs parent dir wname =
     (if \<not> is_worktree_private_directory fs dir then (- 1, None)
      else if git_path_validate_length dir < 0 then (git_path_validate_length dir, None)
      else (case git_worktree__read_link fs dir ''commondir'' of
              None \<Rightarrow> (- 1, None)
            | Some cd \<Rightarrow>
          (case git_worktree__read_link fs dir ''gitdir'' of
              None \<Rightarrow> (- 1, None)
            | Some gl \<Rightarrow>
          (case git_fs_path_prettify_dir fs dir of
              Inl error \<Rightarrow> (error, None)
            | Inr gd \<Rightarrow>
          (let wt = \<lparr> name = wname, worktree_path = git_fs_path_dirname gl,
                      gitlink_path = gl, gitdir_path = gd, commondir_path = cd,
                      parent_path = parent, locked = False \<rparr>
           in case git_worktree_is_locked fs False wt of
                (error, reason) \<Rightarrow>
                  if error < 0 then (error, None)
                  else (0, Some (wt\<lparr>locked := (error \<noteq> 0)\<rparr>)))))))"

subsection \<open>Registry scanner: lookup\<close>

text \<open>
  The loop of \<^verbatim>\<open>git_worktree_lookup\<close>, lines 253 to 282, over the entries that are
  still to be visited (the loop does not change the vector). The result is the value of
  \<open>error\<close>, of \<open>found\<close> and of \<open>*out\<close> when the loop is left.
\<close>

fun lookup_loop :: "fs \<Rightarrow> git_repository \<Rightarrow> string \<Rightarrow> string \<Rightarrow> string list \<Rightarrow> int \<times> int \<times> git_worktree option" where
  "lookup_loop fs repo wname path [] = (0, 0, None)"
| "lookup_loop fs repo wname path (worktree # rest) =
     (if is_worktree_private_directory fs (path @ worktree) then
        (case get_worktree_gitdir_from_private_directory fs (path @ worktree) of
           (error, worktree_dir) \<Rightarrow>
             if error < 0 then (error, 0, None)
             else if git_fs_path_basename (case worktree_dir of None \<Rightarrow> [] | Some d \<Rightarrow> d)
                     = git_fs_path_basename wname
             then (case open_worktree_dir fs (workdir repo) (path @ worktree) wname of
                     (error', out) \<Rightarrow>
                       if error' < 0 then (error', 0, None) else (error', 1, out))
             else lookup_loop fs repo wname path rest)
      else lookup_loop fs repo wname path rest)"

text \<open>
  \<^verbatim>\<open>git_worktree_lookup\<close>, lines 227 to 293. The local \<^verbatim>\<open>found\<close> is declared on line
  229 without a value and first assigned on line 251, after the two early jumps to
  \<^verbatim>\<open>out\<close> of lines 244 and 245; \<open>found0\<close> is the value it holds until then, which C
  leaves indeterminate.
\<close>

definition git_worktree_lookup :: "int \<Rightarrow> fs \<Rightarrow> git_repository \<Rightarrow> string \<Rightarrow> int \<times> git_worktree option" where
  "git_worktree_lookup found0 fs repo wname =
     (let path = git_str_joinpath (commondir repo) ''worktrees/'' in
      if \<not> git_fs_path_exists fs path \<or> git_fs_path_is_empty_dir fs path
      then (if found0 = 0 then - 1 else 0, None)
      else (case git_fs_path_dirload fs path of
              (error, worktrees) \<Rightarrow>
                if error < 0 then (error, None)
                else (case lookup_loop fs repo wname path worktrees of
                        (error', found, out) \<Rightarrow>
                          if error' < 0 then (error', None)
                          else (if found = 0 then - 1 else 0, out))))"

subsection \<open>Validation, locking, unlocking\<close>

text \<open>\<^verbatim>\<open>git_worktree_validate\<close>, lines 343 to 390.\<close>

definition git_worktree_validate :: "fs \<Rightarrow> git_worktree \<Rightarrow> int" where
  "git_worktree_validate fs wt =
     (if \<not> is_worktree_private_directory fs (gitdir_path wt) then GIT_ERROR
      else if (case parent_path wt of None \<Rightarrow> False | Some pp \<Rightarrow> \<not> git_fs_path_exists fs pp)
      then GIT_ERROR
      else if \<not> git_fs_path_exists fs (commondir_path wt) then GIT_ERROR
      else if \<not> git_fs_path_exists fs (worktree_path wt) then GIT_ERROR
      else 0)"

text \<open>
  \<^verbatim>\<open>git_worktree_lock\<close>, lines 598 to 627: the status, the structure and the store
  after the call.
\<close>

definition git_worktree_lock :: "fs \<Rightarrow> git_worktree \<Rightarrow> string option \<Rightarrow> int \<times> git_worktree \<times> fs" where
  "git_worktree_lock fs wt reason =
     (case git_worktree_is_locked fs False wt of
        (error, r) \<Rightarrow>
          if error < 0 then (error, wt, fs)
          else if error \<noteq> 0 then (GIT_ELOCKED, wt, fs)
          else (case git_futils_writebuffer_excl fs (git_str_joinpath (gitdir_path wt) ''locked'')
                       (case reason of None \<Rightarrow> [] | Some text \<Rightarrow> text) of
                  (error', fs') \<Rightarrow>
                    if error' < 0 then (error', wt, fs')
                    else (error', wt\<lparr>locked := True\<rparr>, fs')))"

text \<open>\<^verbatim>\<open>git_worktree_unlock\<close>, lines 629 to 654.\<close>

definition git_worktree_unlock :: "fs \<Rightarrow> git_worktree \<Rightarrow> int \<times> git_worktree \<times> fs" where
  "git_worktree_unlock fs wt =
     (case git_worktree_is_locked fs False wt of
        (error, r) \<Rightarrow>
          if error < 0 then (error, wt, fs)
          else if error = 0 then (1, wt, fs)
          else (case p_unlink fs (git_str_joinpath (gitdir_path wt) ''locked'') of
                  (rc, fs') \<Rightarrow>
                    if rc \<noteq> 0 then (- 1, wt, fs')
                    else (0, wt\<lparr>locked := False\<rparr>, fs')))"

subsection \<open>Prune policy and pruning\<close>

text \<open>
  Modelled from the spec: the option structures are declared in \<^verbatim>\<open>git2/worktree.h\<close>,
  outside the source files. Each starts with its \<^verbatim>\<open>version\<close>; the prune options hold
  a bit set \<^verbatim>\<open>flags\<close> with \<^verbatim>\<open>GIT_WORKTREE_PRUNE_VALID = 1u << 0\<close>,
  \<^verbatim>\<open>GIT_WORKTREE_PRUNE_LOCKED = 1u << 1\<close> and \<^verbatim>\<open>GIT_WORKTREE_PRUNE_WORKING_TREE = 1u << 2\<close>;
  the add options hold \<^verbatim>\<open>lock\<close>, the optional branch reference \<^verbatim>\<open>ref\<close> (given
  here by its name) and the checkout options, which only the checkout subsystem reads.
  The initialisers set \<^verbatim>\<open>version\<close> to 1 and everything else to zero.
\<close>

record git_options =
  version :: nat

record git_worktree_prune_options = git_options +
  flags :: "32 word"

record git_worktree_add_options = git_options +
  lock :: int
  ref :: "string option"

abbreviation (input) GIT_WORKTREE_PRUNE_VALID :: "32 word" where "GIT_WORKTREE_PRUNE_VALID \<equiv> 1"
abbreviation (input) GIT_WORKTREE_PRUNE_LOCKED :: "32 word" where "GIT_WORKTREE_PRUNE_LOCKED \<equiv> 2"

abbreviation (input) GIT_WORKTREE_PRUNE_OPTIONS_VERSION :: nat where "GIT_WORKTREE_PRUNE_OPTIONS_VERSION \<equiv> 1"
abbreviation (input) GIT_WORKTREE_ADD_OPTIONS_VERSION :: nat where "GIT_WORKTREE_ADD_OPTIONS_VERSION \<equiv> 1"

definition GIT_WORKTREE_PRUNE_OPTIONS_INIT :: git_worktree_prune_options where
  "GIT_WORKTREE_PRUNE_OPTIONS_INIT = \<lparr> version = GIT_WORKTREE_PRUNE_OPTIONS_VERSION, flags = 0 \<rparr>"

definition GIT_WORKTREE_ADD_OPTIONS_INIT :: git_worktree_add_options where
  "GIT_WORKTREE_ADD_OPTIONS_INIT =
     \<lparr> version = GIT_WORKTREE_ADD_OPTIONS_VERSION, lock = 0, ref = None \<rparr>"

text \<open>
  Modelled from the spec: \<^verbatim>\<open>GIT_ERROR_CHECK_VERSION(opts, V, name)\<close> (\<^verbatim>\<open>common.h\<close>,
  outside the source files) returns \<^verbatim>\<open>-1\<close> from the calling function when \<open>opts\<close> is not
  \<^verbatim>\<open>NULL\<close> and its version is not in \<open>1..V\<close>. The argument is the version of the
  options, \<open>None\<close> for a \<^verbatim>\<open>NULL\<close> pointer.
\<close>

definition git_error__check_version :: "nat option \<Rightarrow> nat \<Rightarrow> int" where
  "git_error__check_version actual expected_max =
     (case actual of
        None \<Rightarrow> 0
      | Some v \<Rightarrow> if 0 < v \<and> v \<le> expected_max then 0 else - 1)"

text \<open>
  \<^verbatim>\<open>git_worktree_is_prunable\<close>, lines 729 to 764. The second component is the message
  the function itself hands to \<^verbatim>\<open>git_error_set\<close>, if any.
\<close>

definition git_worktree_is_prunable :: "fs \<Rightarrow> git_worktree \<Rightarrow> git_worktree_prune_options option \<Rightarrow> int \<times> string option" where
  "git_worktree_is_prunable fs wt opts =
     (if git_error__check_version (map_option version opts) GIT_WORKTREE_PRUNE_OPTIONS_VERSION < 0
      then (- 1, None)
      else
       (let popts = (case opts of None \<Rightarrow> GIT_WORKTREE_PRUNE_OPTIONS_INIT | Some given \<Rightarrow> given);
            valid_guard =
              (if flags popts AND GIT_WORKTREE_PRUNE_VALID = 0 \<and> git_worktree_validate fs wt = 0
               then (0, Some ''not pruning valid working tree'')
               else (1, None))
        in if flags popts AND GIT_WORKTREE_PRUNE_LOCKED = 0 then
             (case git_worktree__is_locked fs True wt of
                (error, reason) \<Rightarrow>
                  if error < 0 then (error, None)
                  else if error \<noteq> 0 then
                    (0, Some (''not pruning locked working tree: '' @ [CHR 0x27]
                              @ (if reason = [] then ''no reason given'' else reason)
                              @ [CHR 0x27]))
                  else valid_guard)
           else valid_guard))"


subsection \<open>Adding a worktree\<close>

text \<open>
  Modelled from the spec: \<^verbatim>\<open>sprintf(buf, "%d", n)\<close> writes the decimal digits of \<open>n\<close>,
  after a minus sign when \<open>n\<close> is negative, and a terminating zero byte.
\<close>

fun decimal :: "nat \<Rightarrow> string" where
  "decimal n =
     (if n < 10 then [char_of (48 + n)] else decimal (n div 10) @ [char_of (48 + n mod 10)])"

declare decimal.simps [simp del]

definition sprintf_d :: "int \<Rightarrow> string" where
  "sprintf_d n = (if n < 0 then ''-'' @ decimal (nat (- n)) else decimal (nat n))"

lemma sprintf_d_int8_min: "sprintf_d (- 128) = ''-128''"
  by code_simp

lemma int8_counter_step:
  fixes suffix :: "8 word"
  assumes "suffix \<noteq> 128"
  shows "unat (128 - (suffix + 1)) < unat (128 - suffix)"
proof -
  from assms have nz: "128 - suffix \<noteq> 0" by simp
  have eq: "128 - (suffix + 1) = (128 - suffix) - 1" by (simp only: diff_diff_eq)
  have "unat ((128 - suffix) - 1) = unat (128 - suffix) - 1"
    using nz by (rule unat_minus_one)
  moreover have "unat (128 - suffix) \<noteq> 0" using nz by (simp add: unat_eq_0)
  ultimately show ?thesis unfolding eq by arith
qed

text \<open>
  The suffix loop of \<^verbatim>\<open>git_worktree_add\<close>, lines 480 to 492. \<open>suffix\<close> is the
  \<^verbatim>\<open>int8_t\<close> counter of line 429, which wraps from 127 to -128, and \<^verbatim>\<open>suffixstrbuf\<close>
  has room for four bytes (line 432): a rendering of more than three characters does
  not fit with its terminating byte, and the behaviour of the C program is undefined
  from there (\<open>Overrun\<close>). Otherwise the loop ends with the path and the name it found.
\<close>

datatype suffix_search = Free_name string string | Overrun

function suffix_loop :: "fs \<Rightarrow> string \<Rightarrow> string \<Rightarrow> 8 word \<Rightarrow> suffix_search" where
  "suffix_loop fs gitdir private_subdir_name suffix =
     (if git_fs_path_exists fs (git_str_joinpath gitdir private_subdir_name) then
        (if 4 < length (sprintf_d (sint suffix)) + 1 then Overrun
         else suffix_loop fs gitdir (private_subdir_name @ sprintf_d (sint suffix)) (suffix + 1))
      else Free_name (git_str_joinpath gitdir private_subdir_name) private_subdir_name)"
  by pat_completeness auto
termination
proof (relation "measure (\<lambda>(fs, gitdir, n, suffix). unat (128 - suffix))")
  show "wf (measure (\<lambda>(fs, gitdir, n, suffix :: 8 word). unat (128 - suffix)))"
    by simp
next
  fix fs :: fs and gitdir private_subdir_name :: string and suffix :: "8 word"
  assume fits: "\<not> 4 < length (sprintf_d (sint suffix)) + 1"
  have "suffix \<noteq> 128"
  proof
    assume "suffix = 128"
    then have "sint suffix = - 128" by simp
    with fits show False by (simp add: sprintf_d_int8_min)
  qed
  then have "unat (128 - (suffix + 1)) < unat (128 - suffix)"
    by (rule int8_counter_step)
  then show "((fs, gitdir, private_subdir_name @ sprintf_d (sint suffix), suffix + 1),
              (fs, gitdir, private_subdir_name, suffix))
             \<in> measure (\<lambda>(fs, gitdir, n, suffix). unat (128 - suffix))"
    by simp
qed

declare suffix_loop.simps [simp del]

text \<open>
  Modelled from the spec: the subsystems \<^verbatim>\<open>git_worktree_add\<close> delegates to (reference,
  branch and commit, checkout, repository handle) are external collaborators, absent
  from the source files. They are parameters of the model: \<open>create_branch\<close> stands for
  lines 554 to 559 (the head of the repository, its commit, a new branch named after the
  worktree) and gives the name of the new reference; \<open>checkout\<close> stands for lines 566
  and 574 (open the working directory as a repository and check out its head). Each
  gives a status and the store it leaves.
\<close>

record subsystems =
  git_reference_is_branch :: "string \<Rightarrow> bool"
  git_branch_is_checked_out :: "fs \<Rightarrow> string \<Rightarrow> bool"
  create_branch :: "fs \<Rightarrow> string \<Rightarrow> int \<times> string \<times> fs"
  git_repository_create_head :: "fs \<Rightarrow> string \<Rightarrow> string \<Rightarrow> int \<times> fs"
  checkout :: "fs \<Rightarrow> string \<Rightarrow> int \<times> fs"

text \<open>\<^verbatim>\<open>write_wtfile\<close>, lines 139 to 158.\<close>

definition write_wtfile :: "fs \<Rightarrow> string \<Rightarrow> string \<Rightarrow> string \<Rightarrow> int \<times> fs" where
  "write_wtfile fs base file buf =
     git_futils_writebuffer_excl fs (git_str_joinpath base file) buf"

text \<open>
  \<^verbatim>\<open>git_worktree_add\<close>, lines 494 to 500: the private directory is created at the
  path the suffix loop found, and its path is prettified. \<open>Inl\<close> is a jump to \<^verbatim>\<open>out\<close>
  with that status; \<open>Inr\<close> carries the prettified path.
\<close>

definition create_private_dir :: "fs \<Rightarrow> string \<Rightarrow> (int \<times> fs) + (string \<times> fs)" where
  "create_private_dir fs private_subdir_tmp =
     (case git_futils_mkdir_excl fs private_subdir_tmp of
        (err, fs') \<Rightarrow>
          if err < 0 then Inl (err, fs')
          else (case git_fs_path_prettify_dir fs' private_subdir_tmp of
                  Inl err' \<Rightarrow> Inl (err', fs')
                | Inr pretty \<Rightarrow> Inr (pretty, fs')))"

text \<open>
  \<^verbatim>\<open>git_worktree_add\<close>, lines 465 to 500: \<^verbatim>\<open>worktrees\<close> is created when it is missing,
  the suffix loop looks for a free name, starting from the basename of the working
  directory and the counter 1, and the private directory is created. \<open>None\<close> is the
  overrun of the suffix buffer.
\<close>

definition add_private_dir :: "fs \<Rightarrow> git_repository \<Rightarrow> string \<Rightarrow> ((int \<times> fs) + (string \<times> fs)) option" where
  "add_private_dir fs repo worktree =
     (let gitdir = git_str_joinpath (commondir repo) ''worktrees'' in
      case (if \<not> git_fs_path_exists fs gitdir then git_futils_mkdir_excl fs gitdir else (0, fs)) of
        (err, fs1) \<Rightarrow>
          if err < 0 then Some (Inl (err, fs1))
          else (case suffix_loop fs1 gitdir (git_fs_path_basename worktree) 1 of
                  Overrun \<Rightarrow> None
                | Free_name private_subdir_tmp private_subdir_name \<Rightarrow>
                    Some (create_private_dir fs1 private_subdir_tmp)))"

text \<open>
  \<^verbatim>\<open>git_worktree_add\<close>, lines 502 to 544: the working directory, the \<^verbatim>\<open>locked\<close>
  marker, the \<^verbatim>\<open>.git\<close> file and the two link files. \<open>gitdir\<close> is the prettified path
  of the private directory. The status of line 537 is the comparison
  \<^verbatim>\<open>git_fs_path_prettify_dir(...) < 0\<close>, which is 1 when the call fails.
\<close>

definition add_files :: "fs \<Rightarrow> git_repository \<Rightarrow> string \<Rightarrow> string \<Rightarrow> int \<Rightarrow> (int \<times> fs) + (string \<times> fs)" where
  "add_files fs repo gitdir worktree lck =
     (case git_futils_mkdir_path_excl fs worktree of
        (err, fs1) \<Rightarrow>
          if err < 0 then Inl (err, fs1)
          else
     (case git_fs_path_prettify_dir fs1 worktree of
        Inl err \<Rightarrow> Inl (err, fs1)
      | Inr wddir \<Rightarrow>
     (case (if lck \<noteq> 0 then p_creat fs1 (git_str_joinpath gitdir ''locked'') else (0, fs1)) of
        (fd, fs2) \<Rightarrow>
          if fd < 0 then Inl (fd, fs2)
          else
     (case write_wtfile fs2 wddir ''.git'' (''gitdir: '' @ gitdir @ ''\<newline>'') of
        (err, fs3) \<Rightarrow>
          if err < 0 then Inl (err, fs3)
          else
     (case git_fs_path_prettify_dir fs3 (commondir repo) of
        Inl err \<Rightarrow> Inl (1, fs3)
      | Inr pretty_commondir \<Rightarrow>
     (case write_wtfile fs3 gitdir ''commondir'' (pretty_commondir @ ''\<newline>'') of
        (err, fs4) \<Rightarrow>
          if err < 0 then Inl (err, fs4)
          else
     (case write_wtfile fs4 gitdir ''gitdir'' (git_str_joinpath wddir ''.git'' @ ''\<newline>'') of
        (err, fs5) \<Rightarrow>
          if err < 0 then Inl (err, fs5) else Inr (wddir, fs5))))))))"

text \<open>
  \<^verbatim>\<open>git_worktree_add\<close>, lines 547 to 580: the reference, the head of the worktree, the
  checkout and the final lookup by the path of the working directory.
\<close>

definition add_checkout :: "subsystems \<Rightarrow> int \<Rightarrow> fs \<Rightarrow> git_repository \<Rightarrow> string \<Rightarrow> string \<Rightarrow> string \<Rightarrow> string \<Rightarrow> string option \<Rightarrow> int \<times> git_worktree option \<times> fs" where
  "add_checkout sub found0 fs repo wname worktree gitdir wddir wref =
     (case (case wref of Some given \<Rightarrow> (0, given, fs) | None \<Rightarrow> create_branch sub fs wname) of
        (err, refname, fs1) \<Rightarrow>
          if err < 0 then (err, None, fs1)
          else
     (case git_repository_create_head sub fs1 gitdir refname of
        (err, fs2) \<Rightarrow>
          if err < 0 then (err, None, fs2)
          else
     (case checkout sub fs2 wddir of
        (err, fs3) \<Rightarrow>
          if err < 0 then (err, None, fs3)
          else
     (case git_worktree_lookup found0 fs3 repo worktree of
        (err, out) \<Rightarrow> (err, out, fs3)))))"

text \<open>
  \<^verbatim>\<open>git_worktree_add\<close>, lines 412 to 596: the status, \<open>*out\<close> and the store after the
  call; \<open>None\<close> when the suffix buffer is overrun. \<open>found0\<close> is passed on to the final
  lookup.
\<close>

definition git_worktree_add :: "subsystems \<Rightarrow> int \<Rightarrow> fs \<Rightarrow> git_repository \<Rightarrow> string \<Rightarrow> string \<Rightarrow> git_worktree_add_options option \<Rightarrow> (int \<times> git_worktree option \<times> fs) option" where
  "git_worktree_add sub found0 fs repo wname worktree opts =
     (if git_error__check_version (map_option version opts) GIT_WORKTREE_ADD_OPTIONS_VERSION < 0
      then Some (- 1, None, fs)
      else
       (let wtopts = (case opts of None \<Rightarrow> GIT_WORKTREE_ADD_OPTIONS_INIT | Some given \<Rightarrow> given) in
        if (case ref wtopts of None \<Rightarrow> False | Some r \<Rightarrow> \<not> git_reference_is_branch sub r)
        then Some (- 1, None, fs)
        else if (case ref wtopts of None \<Rightarrow> False | Some r \<Rightarrow> git_branch_is_checked_out sub fs r)
        then Some (- 1, None, fs)
        else (case add_private_dir fs repo worktree of
                None \<Rightarrow> None
              | Some (Inl (err, fs1)) \<Rightarrow> Some (err, None, fs1)
              | Some (Inr (gitdir, fs1)) \<Rightarrow>
                  (case add_files fs1 repo gitdir worktree (lock wtopts) of
                     Inl (err, fs2) \<Rightarrow> Some (err, None, fs2)
                   | Inr (wddir, fs2) \<Rightarrow>
                       Some (add_checkout sub found0 fs2 repo wname worktree gitdir wddir
                               (ref wtopts))))))"

subsection \<open>Freeing a worktree structure\<close>

text \<open>
  The heap is the set of live allocations. Modelled from the spec: \<^verbatim>\<open>git__free\<close>
  (\<^verbatim>\<open>alloc.h\<close>, outside the source files) is \<^verbatim>\<open>free\<close>: nothing happens for \<^verbatim>\<open>NULL\<close>,
  a live allocation is released, and releasing anything else (a second release of the
  same pointer, say) is undefined, which is \<open>None\<close> here.
\<close>

type_synonym addr = nat

definition git__free :: "addr option \<Rightarrow> addr set \<Rightarrow> addr set option" where
  "git__free ptr heap =
     (case ptr of
        None \<Rightarrow> Some heap
      | Some a \<Rightarrow> if a \<in> heap then Some (heap - {a}) else None)"

text \<open>The pointers held by a \<^verbatim>\<open>git_worktree\<close> in memory.\<close>

record git_worktree_mem =
  name_ptr :: "addr option"
  worktree_path_ptr :: "addr option"
  gitlink_path_ptr :: "addr option"
  gitdir_path_ptr :: "addr option"
  commondir_path_ptr :: "addr option"
  parent_path_ptr :: "addr option"

text \<open>
  \<^verbatim>\<open>git_worktree_free\<close>, lines 329 to 341. The argument is \<open>None\<close> for \<^verbatim>\<open>NULL\<close>, or
  the address of the structure with its content.
\<close>

definition git_worktree_free :: "(addr \<times> git_worktree_mem) option \<Rightarrow> addr set \<Rightarrow> addr set option" where
  "git_worktree_free wt heap =
     (case wt of
        None \<Rightarrow> Some heap
      | Some (a, m) \<Rightarrow>
          Option.bind (git__free (commondir_path_ptr m) heap) (\<lambda>h1.
          Option.bind (git__free (worktree_path_ptr m) h1) (\<lambda>h2.
          Option.bind (git__free (gitlink_path_ptr m) h2) (\<lambda>h3.
          Option.bind (git__free (gitdir_path_ptr m) h3) (\<lambda>h4.
          Option.bind (git__free (parent_path_ptr m) h4) (\<lambda>h5.
          Option.bind (git__free (name_ptr m) h5) (\<lambda>h6.
          git__free (Some a) h6)))))))"

subsection \<open>Notions the properties are stated with\<close>

text \<open>
  A directory \<open>D\<close> directly contains a regular file named \<open>f\<close>: the entry \<open>f\<close> of the
  resolved path of \<open>D\<close> is a file node of the store.
\<close>

definition has_regular_file :: "fs \<Rightarrow> string \<Rightarrow> string \<Rightarrow> bool" where
  "has_regular_file fs D f =
     (case node_at fs (key D @ [f]) of Some (File c) \<Rightarrow> True | _ \<Rightarrow> False)"

text \<open>A plain entry name: one path segment that is neither \<^verbatim>\<open>.\<close> nor \<^verbatim>\<open>..\<close>.\<close>

definition plain_name :: "string \<Rightarrow> bool" where
  "plain_name f = (\<not> list_ex is_slash f \<and> f \<noteq> [] \<and> f \<noteq> ''.'' \<and> f \<noteq> ''..'')"

text \<open>
  The lock marker of a worktree on disk: the entry \<^verbatim>\<open>locked\<close> of its private directory
  exists in the store.
\<close>

definition has_lock_marker :: "fs \<Rightarrow> git_worktree \<Rightarrow> bool" where
  "has_lock_marker fs wt = (node_at fs (key (gitdir_path wt) @ [''locked'']) \<noteq> None)"

text \<open>
  The allocations a worktree structure owns: its non-\<^verbatim>\<open>NULL\<close> string pointers and the
  structure itself, in the order in which \<^verbatim>\<open>git_worktree_free\<close> releases them.
  \<open>free_each\<close> releases a list of pointers one after the other.
\<close>

fun non_null :: "addr option list \<Rightarrow> addr list" where
  "non_null [] = []"
| "non_null (None # ps) = non_null ps"
| "non_null (Some a # ps) = a # non_null ps"

definition owned_pointers :: "addr \<times> git_worktree_mem \<Rightarrow> addr list" where
  "owned_pointers w = (case w of (a, m) \<Rightarrow>
     non_null [commondir_path_ptr m, worktree_path_ptr m, gitlink_path_ptr m,
               gitdir_path_ptr m, parent_path_ptr m, name_ptr m, Some a])"

fun free_each :: "addr option list \<Rightarrow> addr set \<Rightarrow> addr set option" where
  "free_each [] heap = Some heap"
| "free_each (p # ps) heap = (case git__free p heap of None \<Rightarrow> None | Some h \<Rightarrow> free_each ps h)"

text \<open>
  The prune options a call works with (the initialiser when the caller passes
  \<^verbatim>\<open>NULL\<close>), whether their version is supported, and the three flags by name.
\<close>

definition effective_flags :: "git_worktree_prune_options option \<Rightarrow> 32 word" where
  "effective_flags opts =
     flags (case opts of None \<Rightarrow> GIT_WORKTREE_PRUNE_OPTIONS_INIT | Some given \<Rightarrow> given)"

definition supported_version :: "git_worktree_prune_options option \<Rightarrow> bool" where
  "supported_version opts = (case opts of None \<Rightarrow> True | Some given \<Rightarrow> version given = 1)"

definition allow_locked :: "git_worktree_prune_options option \<Rightarrow> bool" where
  "allow_locked opts = (effective_flags opts AND GIT_WORKTREE_PRUNE_LOCKED \<noteq> 0)"

definition allow_valid :: "git_worktree_prune_options option \<Rightarrow> bool" where
  "allow_valid opts = (effective_flags opts AND GIT_WORKTREE_PRUNE_VALID \<noteq> 0)"


definition locked_message :: "string \<Rightarrow> string" where
  "locked_message reason = ''not pruning locked working tree: '' @ [CHR 0x27] @ reason @ [CHR 0x27]"

text \<open>
  A resolved path \<open>k'\<close> lies in the tree rooted at \<open>k\<close>; and the store without that
  tree.
\<close>

definition under :: "string list \<Rightarrow> string list \<Rightarrow> bool" where
  "under k k' = (take (length k) k' = k)"




text \<open>
  A normalised absolute path: it starts with the separator, and what follows is a
  sequence of plain names divided by single separators, with or without a separator at
  the end.
\<close>

definition normal_path :: "string \<Rightarrow> bool" where
  "normal_path p =
     (case p of
        [] \<Rightarrow> False
      | c # rest \<Rightarrow>
          is_slash c \<and> list_all plain_name (butlast (split_path rest))
          \<and> (last (split_path rest) = [] \<or> plain_name (last (split_path rest))))"

text \<open>
  An absolute base directory for the link resolver: the path begins with the separator
  and \<^verbatim>\<open>git_fs_path_root\<close> takes that separator for its root, which it does unless a
  colon follows (the two bytes are then read as a drive prefix).
\<close>

definition absolute_base :: "string \<Rightarrow> bool" where
  "absolute_base p = (case p of [] \<Rightarrow> False | c # r \<Rightarrow> is_slash c \<and> take 1 r \<noteq> '':'')"

text \<open>
  A path does not climb above its root: walking its segments \<open>ss\<close> from the resolved
  path \<open>acc\<close>, no \<^verbatim>\<open>..\<close> is met at the root.
\<close>

fun stays_inside :: "string list \<Rightarrow> string list \<Rightarrow> bool" where
  "stays_inside acc [] = True"
| "stays_inside acc (s # ss) = ((s = ''..'' \<longrightarrow> acc \<noteq> []) \<and> stays_inside (walk acc s) ss)"

text \<open>
  The name the suffix loop tries after \<open>k\<close> collisions: the first name followed by the
  renderings of the counter values 1 to \<open>k\<close>, each appended to the name before it.
\<close>

definition candidate :: "string \<Rightarrow> nat \<Rightarrow> string" where
  "candidate b k = b @ concat (map decimal [1..<Suc k])"

text \<open>
  The subsystems leave the \<^verbatim>\<open>locked\<close> entry of the private directory \<open>gitdir\<close> as
  it is, whatever they are called with.
\<close>

definition keeps_marker :: "subsystems \<Rightarrow> string \<Rightarrow> bool" where
  "keeps_marker sub gitdir =
     ((\<forall>s n. node_at (snd (snd (create_branch sub s n))) (key gitdir @ [''locked''])
               = node_at s (key gitdir @ [''locked'']))
      \<and> (\<forall>s g r. node_at (snd (git_repository_create_head sub s g r)) (key gitdir @ [''locked''])
               = node_at s (key gitdir @ [''locked'']))
      \<and> (\<forall>s w. node_at (snd (checkout sub s w)) (key gitdir @ [''locked''])
               = node_at s (key gitdir @ [''locked''])))"

text \<open>
  An entry of the registry ends the scan of \<^verbatim>\<open>git_worktree_lookup\<close>: it is a valid
  private directory, and either its working directory cannot be resolved or the
  basename of its working directory is the basename of the requested name.
\<close>

definition ends_scan :: "fs \<Rightarrow> string \<Rightarrow> string \<Rightarrow> string \<Rightarrow> bool" where
  "ends_scan fs path wname worktree =
     (is_worktree_private_directory fs (path @ worktree)
      \<and> (case get_worktree_gitdir_from_private_directory fs (path @ worktree) of
            (error, worktree_dir) \<Rightarrow>
              error < 0
              \<or> git_fs_path_basename (case worktree_dir of None \<Rightarrow> [] | Some d \<Rightarrow> d)
                  = git_fs_path_basename wname))"

text \<open>
  The registry of a repository: the names of the entries of \<^verbatim>\<open>worktrees/\<close> in its
  common directory, in the order of enumeration.
\<close>

definition registry :: "fs \<Rightarrow> git_repository \<Rightarrow> string list" where
  "registry fs repo = snd (git_fs_path_dirload fs (git_str_joinpath (commondir repo) ''worktrees/''))"

subsection \<open>Example stores\<close>

text \<open>
  The stores, structures and options the properties are tried on. In \<open>fs_demo\<close> the
  repository \<^verbatim>\<open>/r\<close> has the common directory \<^verbatim>\<open>/r/.git\<close> and one worktree, the
  working directory \<^verbatim>\<open>/w/wt\<close> with the private directory \<^verbatim>\<open>/r/.git/worktrees/wt\<close>;
  \<open>wt_demo\<close> is the structure of that worktree. The other stores vary it: a lock file
  with and without a reason, a directory in the place of the lock file, links written
  as relative paths, and a registry with two invalid entries, with no entry, or
  missing.
\<close>

definition fs_demo :: fs where
  "fs_demo =
    [([''r''], Dir),
     ([''r'', ''.git''], Dir),
     ([''r'', ''.git'', ''worktrees''], Dir),
     ([''r'', ''.git'', ''worktrees'', ''wt''], Dir),
     ([''r'', ''.git'', ''worktrees'', ''wt'', ''commondir''], File ''/r/.git/\<newline>''),
     ([''r'', ''.git'', ''worktrees'', ''wt'', ''gitdir''], File ''/w/wt/.git\<newline>''),
     ([''r'', ''.git'', ''worktrees'', ''wt'', ''HEAD''], File ''ref: refs/heads/wt\<newline>''),
     ([''w''], Dir),
     ([''w'', ''wt''], Dir),
     ([''w'', ''wt'', ''.git''], File ''gitdir: /r/.git/worktrees/wt/\<newline>'')]"

definition wt_demo :: git_worktree where
  "wt_demo = \<lparr> name = ''wt'', worktree_path = ''/w/wt'', gitlink_path = ''/w/wt/.git'',
               gitdir_path = ''/r/.git/worktrees/wt/'', commondir_path = ''/r/.git/'',
               parent_path = Some ''/r/'', locked = False \<rparr>"

definition fs_locked :: fs where
  "fs_locked = fs_demo @ [([''r'', ''.git'', ''worktrees'', ''wt'', ''locked''], File ''busy'')]"

definition mem_demo :: git_worktree_mem where
  "mem_demo = \<lparr> name_ptr = Some 11, worktree_path_ptr = Some 12, gitlink_path_ptr = Some 13,
                gitdir_path_ptr = Some 14, commondir_path_ptr = Some 15, parent_path_ptr = None \<rparr>"

definition repo_demo :: git_repository where
  "repo_demo = \<lparr> commondir = ''/r/.git/'', workdir = Some ''/r/'' \<rparr>"

definition fs_two_invalid :: fs where
  "fs_two_invalid =
    [([''r''], Dir),
     ([''r'', ''.git''], Dir),
     ([''r'', ''.git'', ''worktrees''], Dir),
     ([''r'', ''.git'', ''worktrees'', ''a''], Dir),
     ([''r'', ''.git'', ''worktrees'', ''b''], Dir)]"

definition fs_no_registry :: fs where
  "fs_no_registry = [([''r''], Dir), ([''r'', ''.git''], Dir)]"

definition fs_empty_registry :: fs where
  "fs_empty_registry =
     [([''r''], Dir), ([''r'', ''.git''], Dir), ([''r'', ''.git'', ''worktrees''], Dir)]"

definition fs_lock_dir :: fs where
  "fs_lock_dir = fs_demo @ [([''r'', ''.git'', ''worktrees'', ''wt'', ''locked''], Dir)]"

definition fs_locked_empty :: fs where
  "fs_locked_empty = fs_demo @ [([''r'', ''.git'', ''worktrees'', ''wt'', ''locked''], File [])]"

definition fs_relative_links :: fs where
  "fs_relative_links =
    [([''r''], Dir),
     ([''r'', ''.git''], Dir),
     ([''r'', ''.git'', ''worktrees''], Dir),
     ([''r'', ''.git'', ''worktrees'', ''wt''], Dir),
     ([''r'', ''.git'', ''worktrees'', ''wt'', ''commondir''], File ''../..\<newline>''),
     ([''r'', ''.git'', ''worktrees'', ''wt'', ''gitdir''], File ''../../../../w/wt/.git  \<newline>''),
     ([''r'', ''.git'', ''worktrees'', ''wt'', ''HEAD''], File ''ref: refs/heads/wt\<newline>''),
     ([''w''], Dir),
     ([''w'', ''wt''], Dir),
     ([''w'', ''wt'', ''.git''], File ''gitdir: /r/.git/worktrees/wt/\<newline>'')]"

text \<open>
  Subsystems for the examples: every name under \<^verbatim>\<open>refs/heads/\<close> is a branch and none is
  checked out, a new branch needs no file, the head of a worktree is the file
  \<^verbatim>\<open>HEAD\<close> of its private directory, and the commit that is checked out is empty.
\<close>

definition plain_subsystems :: subsystems where
  "plain_subsystems =
     \<lparr> git_reference_is_branch = (\<lambda>r. take 11 r = ''refs/heads/''),
       git_branch_is_checked_out = (\<lambda>s r. False),
       create_branch = (\<lambda>s n. (0, ''refs/heads/'' @ n, s)),
       git_repository_create_head = (\<lambda>s g r.
          git_futils_writebuffer_excl s (git_str_joinpath g ''HEAD'') (''ref: '' @ r @ ''\<newline>'')),
       checkout = (\<lambda>s w. (0, s)) \<rparr>"

section \<open>Properties\<close>

subsection \<open>Paths and the store\<close>

lemma split_path_not_Nil [simp]: "split_path p \<noteq> []"
  by (induction p) (auto split: list.splits)

lemma split_path_append: "split_path (a @ CHR ''/'' # b) = split_path a @ split_path b"
  by (induction a) (auto simp: is_slash_def split: list.splits)

lemma split_path_plain: "\<not> list_ex is_slash f \<Longrightarrow> split_path f = [f]"
  by (induction f) (auto split: list.splits)

lemma dropWhile_no_slash: "\<not> list_ex is_slash f \<Longrightarrow> dropWhile is_slash f = f"
  by (cases f) auto

lemma key_plain: "plain_name f \<Longrightarrow> key f = [f]"
  by (simp add: key_def plain_name_def split_path_plain walk_def)

lemma key_snoc_slash: "key (d @ ''/'') = key d"
  using split_path_append [of d "[]"] by (simp add: key_def walk_def)

lemma key_slash_plain: "plain_name f \<Longrightarrow> key (d @ CHR ''/'' # f) = key d @ [f]"
  by (simp add: key_def plain_name_def split_path_append split_path_plain walk_def)

lemma key_joinpath_plain:
  assumes "plain_name f"
  shows "key (git_str_joinpath D f) = key D @ [f]"
proof (cases "D = []")
  case True
  have "key [] = []" by (simp add: key_def walk_def)
  with True show ?thesis using assms by (simp add: git_str_joinpath_def key_plain)
next
  case False
  have dw: "dropWhile is_slash f = f" using assms by (simp add: plain_name_def dropWhile_no_slash)
  show ?thesis
  proof (cases "is_slash (last D)")
    case True
    with False have D: "D = butlast D @ ''/''"
      by (metis append_butlast_last_id is_slash_def)
    have "key (butlast D @ CHR ''/'' # f) = key (butlast D) @ [f]"
      using assms by (rule key_slash_plain)
    moreover have "key D = key (butlast D)" using D key_snoc_slash by metis
    moreover have "git_str_joinpath D f = butlast D @ CHR ''/'' # f"
      using False True D dw by (simp add: git_str_joinpath_def)
    ultimately show ?thesis by simp
  next
    case no: False
    then have "git_str_joinpath D f = D @ CHR ''/'' # f"
      using False dw by (simp add: git_str_joinpath_def)
    then show ?thesis using assms by (simp add: key_slash_plain)
  qed
qed

lemma plain_names [simp]: "plain_name ''commondir''" "plain_name ''gitdir''" "plain_name ''HEAD''" "plain_name ''locked''"
  by (simp_all add: plain_name_def is_slash_def)

lemma map_of_filter_key: "map_of (filter (\<lambda>(k, n). k \<noteq> x) fs) x = None"
  by (induction fs) auto

lemma node_at_append_keep: "node_at s K = Some v \<Longrightarrow> node_at (s @ [(k, n)]) K = Some v"
  by (auto simp: node_at_def map_add_def split: option.splits if_splits)

lemma node_at_append_other: "k \<noteq> K \<Longrightarrow> node_at (s @ [(k, n)]) K = node_at s K"
  by (auto simp: node_at_def map_add_def split: option.splits)

subsection \<open>The private-directory validator\<close>

lemma contains_file_store:
  "plain_name f \<Longrightarrow> git_fs_path_contains_file fs D f = has_regular_file fs D f"
  by (simp add: git_fs_path_contains_file_def git_fs_path_isfile_def has_regular_file_def key_joinpath_plain)

lemma contains_file_unlinked:
  assumes "plain_name f"
  shows "\<not> git_fs_path_contains_file (snd (p_unlink fs (git_str_joinpath D f))) D f"
proof (cases "git_fs_path_isfile fs (git_str_joinpath D f)")
  case True
  have "key (git_str_joinpath D f) \<noteq> []" using assms by (simp add: key_joinpath_plain)
  then show ?thesis using True
    by (simp add: p_unlink_def git_fs_path_contains_file_def git_fs_path_isfile_def node_at_def map_of_filter_key)
next
  case False
  then show ?thesis by (simp add: p_unlink_def git_fs_path_contains_file_def)
qed

text \<open>
  Claim C1. For every store and every directory path \<open>D\<close>,
  \<^verbatim>\<open>is_worktree_private_directory\<close> answers true exactly when \<open>D\<close> directly contains
  the three regular files \<^verbatim>\<open>commondir\<close>, \<^verbatim>\<open>gitdir\<close> and \<^verbatim>\<open>HEAD\<close>; and after any
  one of the three is removed from \<open>D\<close> it answers false.
\<close>

theorem validator_completeness:
  "(is_worktree_private_directory fs D \<longleftrightarrow>
      has_regular_file fs D ''commondir'' \<and> has_regular_file fs D ''gitdir''
      \<and> has_regular_file fs D ''HEAD'')
   \<and> \<not> is_worktree_private_directory (snd (p_unlink fs (git_str_joinpath D ''commondir''))) D
   \<and> \<not> is_worktree_private_directory (snd (p_unlink fs (git_str_joinpath D ''gitdir''))) D
   \<and> \<not> is_worktree_private_directory (snd (p_unlink fs (git_str_joinpath D ''HEAD''))) D"
proof -
  have a: "is_worktree_private_directory fs D \<longleftrightarrow>
      has_regular_file fs D ''commondir'' \<and> has_regular_file fs D ''gitdir''
      \<and> has_regular_file fs D ''HEAD''"
    by (simp add: is_worktree_private_directory_def contains_file_store)
  have b: "\<not> is_worktree_private_directory (snd (p_unlink fs (git_str_joinpath D ''commondir''))) D"
    using contains_file_unlinked [of "''commondir''" fs D] by (simp add: is_worktree_private_directory_def)
  have c: "\<not> is_worktree_private_directory (snd (p_unlink fs (git_str_joinpath D ''gitdir''))) D"
    using contains_file_unlinked [of "''gitdir''" fs D] by (simp add: is_worktree_private_directory_def)
  have d: "\<not> is_worktree_private_directory (snd (p_unlink fs (git_str_joinpath D ''HEAD''))) D"
    using contains_file_unlinked [of "''HEAD''" fs D] by (simp add: is_worktree_private_directory_def)
  from a b c d show ?thesis by blast
qed

theorem validator_completeness_witness:
  "is_worktree_private_directory fs_demo ''/r/.git/worktrees/wt''
   \<and> has_regular_file fs_demo ''/r/.git/worktrees/wt'' ''HEAD''
   \<and> \<not> is_worktree_private_directory
          (snd (p_unlink fs_demo (git_str_joinpath ''/r/.git/worktrees/wt'' ''HEAD'')))
          ''/r/.git/worktrees/wt''"
proof -
  have "has_regular_file fs_demo ''/r/.git/worktrees/wt'' ''commondir''"
       "has_regular_file fs_demo ''/r/.git/worktrees/wt'' ''gitdir''"
       "has_regular_file fs_demo ''/r/.git/worktrees/wt'' ''HEAD''"
    by (simp_all add: has_regular_file_def key_def walk_def node_at_def fs_demo_def is_slash_def)
  then show ?thesis
    using validator_completeness [of fs_demo "''/r/.git/worktrees/wt''"] by simp
qed

subsection \<open>Normalisation of paths\<close>

lemma split_path_no_slash: "list_all (\<lambda>s. \<not> list_ex is_slash s) (split_path p)"
  by (induction p) (auto split: list.splits)

lemma split_path_Cons_slash: "split_path (CHR ''/'' # p) = [] # split_path p"
  by (simp add: is_slash_def)

lemma split_path_names:
  "list_all (\<lambda>n. \<not> list_ex is_slash n) ns \<Longrightarrow>
   split_path (concat (map (\<lambda>n. n @ ''/'') ns) @ r) = ns @ split_path r"
proof (induction ns)
  case Nil
  then show ?case by simp
next
  case (Cons n ns)
  then have "split_path (n @ CHR ''/'' # (concat (map (\<lambda>n. n @ ''/'') ns) @ r))
             = split_path n @ (ns @ split_path r)"
    by (simp add: split_path_append)
  with Cons.prems show ?case by (simp add: split_path_plain)
qed

lemma walk_plain: "plain_name n \<Longrightarrow> walk acc n = acc @ [n]"
  by (auto simp: walk_def plain_name_def)

lemma foldl_walk_plain: "list_all plain_name ms \<Longrightarrow> foldl walk acc ms = acc @ ms"
  by (induction ms arbitrary: acc) (auto simp: walk_plain)

lemma plain_name_iff:
  "\<not> list_ex is_slash t \<Longrightarrow> plain_name t \<longleftrightarrow> \<not> (t = [] \<or> t = ''.'') \<and> t \<noteq> ''..''"
  by (auto simp: plain_name_def)

lemma split_path_step:
  "split_path xs = takeWhile (\<lambda>x. \<not> is_slash x) xs
     # (case dropWhile (\<lambda>x. \<not> is_slash x) xs of [] \<Rightarrow> [] | c # n \<Rightarrow> split_path n)"
  by (induction xs) (auto split: list.splits)

lemma walk_skip: "foldl walk acc (split_path (dropWhile is_slash s)) = foldl walk acc (split_path s)"
  by (induction s) (auto simp: walk_def)

lemma stays_skip: "stays_inside acc (split_path (dropWhile is_slash s)) = stays_inside acc (split_path s)"
  by (induction s) (auto simp: walk_def)

lemma walk_next:
  "foldl walk acc (split_path (c # cs))
   = foldl walk (walk acc (takeWhile (\<lambda>x. \<not> is_slash x) (c # cs)))
       (split_path (dropWhile is_slash (drop 1 (dropWhile (\<lambda>x. \<not> is_slash x) (c # cs)))))"
proof (cases "dropWhile (\<lambda>x. \<not> is_slash x) (c # cs)")
  case Nil
  then show ?thesis
    by (subst split_path_step) (simp add: walk_def)
next
  case (Cons d n)
  then show ?thesis
    by (subst split_path_step) (simp add: walk_skip)
qed

lemma stays_next:
  "stays_inside acc (split_path (c # cs))
   = ((takeWhile (\<lambda>x. \<not> is_slash x) (c # cs) = ''..'' \<longrightarrow> acc \<noteq> [])
      \<and> stays_inside (walk acc (takeWhile (\<lambda>x. \<not> is_slash x) (c # cs)))
          (split_path (dropWhile is_slash (drop 1 (dropWhile (\<lambda>x. \<not> is_slash x) (c # cs))))))"
proof (cases "dropWhile (\<lambda>x. \<not> is_slash x) (c # cs)")
  case Nil
  then show ?thesis
    by (subst split_path_step) (simp add: walk_def)
next
  case (Cons d n)
  then show ?thesis
    by (subst split_path_step) (simp add: stays_skip)
qed

lemma skip_first: "dropWhile is_slash nxt = dropWhile is_slash (drop 1 nxt)"
  if "nxt = dropWhile (\<lambda>x. \<not> is_slash x) xs"
proof (cases nxt)
  case Nil
  then show ?thesis by simp
next
  case (Cons d n)
  with that have "is_slash d" by (metis hd_dropWhile list.sel(1) list.distinct(1))
  with Cons show ?thesis by simp
qed

lemma names_concat_snoc:
  "concat (map (\<lambda>n. n @ ''/'') (ms @ [m])) = concat (map (\<lambda>n. n @ ''/'') ms) @ m @ ''/''"
  by simp

lemma back_up_names:
  assumes "ms \<noteq> []" "list_all plain_name ms"
  shows "back_up (concat (map (\<lambda>n. n @ ''/'') ms)) = concat (map (\<lambda>n. n @ ''/'') (butlast ms))"
proof -
  let ?X = "concat (map (\<lambda>n. n @ ''/'') (butlast ms))"
  let ?l = "last ms"
  from assms have ms: "ms = butlast ms @ [?l]" by simp
  have l: "plain_name ?l" using assms by (simp add: list_all_iff)
  then have lne: "?l \<noteq> []" and lns: "\<forall>x\<in>set ?l. \<not> is_slash x"
    by (auto simp: plain_name_def list_ex_iff)
  have out: "concat (map (\<lambda>n. n @ ''/'') ms) = ?X @ ?l @ ''/''"
    by (subst ms) (simp only: names_concat_snoc)
  have X: "?X = [] \<or> is_slash (last ?X)"
    by (cases "butlast ms" rule: rev_cases) (auto simp: is_slash_def)
  have 1: "dropWhile is_slash (rev (?X @ ?l @ ''/'')) = rev ?l @ rev ?X"
    using lne lns by (cases "rev ?l") (auto simp: is_slash_def)
  have 2: "dropWhile (\<lambda>c. \<not> is_slash c) (rev ?l @ rev ?X) = dropWhile (\<lambda>c. \<not> is_slash c) (rev ?X)"
    using lns by (intro dropWhile_append2) simp
  have 3: "dropWhile (\<lambda>c. \<not> is_slash c) (rev ?X) = rev ?X"
    using X by (cases ?X rule: rev_cases) auto
  show ?thesis unfolding back_up_def out 1 2 3 by simp
qed


lemma rest_shorter:
  "length (dropWhile is_slash (drop 1 (dropWhile (\<lambda>x. \<not> is_slash x) (c # cs)))) < length (c # cs)"
proof (cases "is_slash c")
  case True
  then show ?thesis using length_dropWhile_le [of is_slash cs] by simp
next
  case False
  then show ?thesis
    using length_dropWhile_le [of is_slash "drop 1 (dropWhile (\<lambda>x. \<not> is_slash x) cs)"]
          length_dropWhile_le [of "\<lambda>x. \<not> is_slash x" cs]
    by simp
qed

lemma seg_no_slash: "\<not> list_ex is_slash (takeWhile (\<lambda>x. \<not> is_slash x) xs)"
  by (auto simp: list_ex_iff dest: set_takeWhileD)

lemma resolve_loop_rooted:
  assumes "list_all plain_name ms" "stays_inside ms (split_path rest)"
  shows "\<exists>ms' r. resolve_loop True fixed (concat (map (\<lambda>n. n @ ''/'') ms)) junk rest
                    = (0, fixed @ concat (map (\<lambda>n. n @ ''/'') ms') @ r)
                \<and> list_all plain_name ms' \<and> (r = [] \<or> plain_name r)
                \<and> foldl walk ms (split_path rest) = ms' @ (if r = [] then [] else [r])"
  using assms
proof (induction "length rest" arbitrary: rest ms junk rule: less_induct)
  case less
  let ?out = "concat (map (\<lambda>n. n @ ''/'') ms)"
  show ?case
  proof (cases rest)
    case Nil
    then show ?thesis using less.prems
      by (intro exI [of _ ms] exI [of _ "[]"]) (simp add: resolve_loop.simps walk_def)
  next
    case (Cons c cs)
    define seg where "seg = takeWhile (\<lambda>x. \<not> is_slash x) (c # cs)"
    define nxt where "nxt = dropWhile (\<lambda>x. \<not> is_slash x) (c # cs)"
    define rest' where "rest' = dropWhile is_slash (drop 1 nxt)"
    have shorter: "length rest' < length rest"
      unfolding rest'_def nxt_def Cons by (rule rest_shorter)
    have skip: "dropWhile is_slash nxt = rest'"
      unfolding rest'_def using nxt_def by (rule skip_first)
    have w: "foldl walk ms (split_path rest) = foldl walk (walk ms seg) (split_path rest')"
      unfolding Cons seg_def rest'_def nxt_def by (rule walk_next)
    have st: "(seg = ''..'' \<longrightarrow> ms \<noteq> []) \<and> stays_inside (walk ms seg) (split_path rest')"
      using less.prems(2) unfolding Cons seg_def rest'_def nxt_def stays_next by simp
    have segns: "\<not> list_ex is_slash seg" unfolding seg_def by (rule seg_no_slash)
    have step: "resolve_loop True fixed ?out junk rest =
      (if seg = ''.'' then
           resolve_loop True fixed ?out (junk @ seg @ takeWhile is_slash nxt) (dropWhile is_slash nxt)
         else if seg = ''..'' then
           (if ?out = [] then
              (if True then (- 1, fixed @ junk @ c # cs)
               else resolve_loop True (fixed @ seg @ take 1 nxt) []
                      (drop (length (seg @ take 1 nxt)) (junk @ seg @ take 1 nxt)
                       @ takeWhile is_slash (drop 1 nxt))
                      (dropWhile is_slash (drop 1 nxt)))
            else resolve_loop True fixed (back_up ?out)
                   (drop (length (back_up ?out)) ?out @ junk @ seg @ takeWhile is_slash nxt)
                   (dropWhile is_slash nxt))
         else if seg = [] then
           resolve_loop True fixed ?out (junk @ takeWhile is_slash (c # cs))
             (dropWhile is_slash (c # cs))
         else
           resolve_loop True fixed (?out @ seg @ take 1 nxt)
             (drop (length (seg @ take 1 nxt)) (junk @ seg @ take 1 nxt)
              @ takeWhile is_slash (drop 1 nxt))
             (dropWhile is_slash (drop 1 nxt)))"
      unfolding Cons seg_def nxt_def by (simp only: resolve_loop.simps Let_def)
    consider (dot) "seg = ''.''" | (up) "seg = ''..''" | (empty) "seg = []" | (name) "plain_name seg"
      using plain_name_iff [OF segns] by blast
    then show ?thesis
    proof cases
      case dot
      then have "walk ms seg = ms" by (simp add: walk_def)
      with st have "stays_inside ms (split_path rest')" by simp
      from less.hyps [OF shorter less.prems(1) this, of "junk @ seg @ takeWhile is_slash nxt"]
      show ?thesis unfolding step w using dot skip by (simp add: walk_def)
    next
      case up
      with st have ne: "ms \<noteq> []" by simp
      then have one: "?out \<noteq> []" by (cases ms) auto
      have wk: "walk ms seg = butlast ms" using up by (simp add: walk_def)
      have pl: "list_all plain_name (butlast ms)"
        using less.prems(1) by (auto simp: list_all_iff dest: in_set_butlastD)
      have bu: "back_up ?out = concat (map (\<lambda>n. n @ ''/'') (butlast ms))"
        using ne less.prems(1) by (rule back_up_names)
      from st wk have "stays_inside (butlast ms) (split_path rest')" by simp
      from less.hyps [OF shorter pl this,
            of "drop (length (back_up ?out)) ?out @ junk @ seg @ takeWhile is_slash nxt"]
      show ?thesis unfolding step w wk using up one skip bu by simp
    next
      case empty
      then have "walk ms seg = ms" by (simp add: walk_def)
      with st have s: "stays_inside ms (split_path rest')" by simp
      from empty have "is_slash c" unfolding seg_def by (auto split: if_splits)
      then have "dropWhile is_slash (c # cs) = rest'" unfolding rest'_def nxt_def by simp
      with less.hyps [OF shorter less.prems(1) s, of "junk @ takeWhile is_slash (c # cs)"]
      show ?thesis unfolding step w using empty by (simp add: walk_def)
    next
      case name
      then have sn: "seg \<noteq> ''.''" "seg \<noteq> ''..''" "seg \<noteq> []" by (auto simp: plain_name_def)
      have wk: "walk ms seg = ms @ [seg]" using name by (rule walk_plain)
      show ?thesis
      proof (cases nxt)
        case Nil
        then have r: "rest' = []" by (simp add: rest'_def)
        have "resolve_loop True fixed ?out junk rest = (0, fixed @ ?out @ seg)"
          unfolding step using sn Nil by (simp add: resolve_loop.simps)
        moreover have "foldl walk ms (split_path rest) = ms @ [seg]"
          unfolding w wk r by (simp add: walk_def)
        ultimately show ?thesis using less.prems(1) name sn
          by (intro exI [of _ ms] exI [of _ seg]) simp
      next
        case (Cons d n)
        then have "is_slash d" using nxt_def by (metis hd_dropWhile list.sel(1) list.distinct(1))
        then have t1: "take 1 nxt = ''/''" using Cons by (simp add: is_slash_def)
        have o: "?out @ seg @ take 1 nxt = concat (map (\<lambda>n. n @ ''/'') (ms @ [seg]))"
          unfolding t1 by simp
        have pl: "list_all plain_name (ms @ [seg])" using less.prems(1) name by simp
        from st wk have "stays_inside (ms @ [seg]) (split_path rest')" by simp
        from less.hyps [OF shorter pl this,
            of "drop (length (seg @ take 1 nxt)) (junk @ seg @ take 1 nxt) @ takeWhile is_slash (drop 1 nxt)"]
        show ?thesis unfolding step w wk o [symmetric] using sn by (simp add: rest'_def)
      qed
    qed
  qed
qed


lemma root_zero: "git_fs_path_root p = 0 \<longleftrightarrow> absolute_base p"
proof (cases p)
  case Nil
  then show ?thesis by (simp add: git_fs_path_root_def dos_drive_prefix_length_def absolute_base_def)
next
  case (Cons c r)
  show ?thesis
  proof (cases "is_slash c")
    case True
    then have "\<not> high_bit c" by (simp add: is_slash_def high_bit_def)
    with True Cons show ?thesis
      by (cases r) (auto simp: git_fs_path_root_def dos_drive_prefix_length_def absolute_base_def is_slash_def)
  next
    case False
    with Cons show ?thesis
      by (auto simp: git_fs_path_root_def dos_drive_prefix_length_def absolute_base_def is_slash_def Let_def)
  qed
qed

lemma resolve_relative_rooted:
  assumes "absolute_base p" "stays_inside [] (split_path p)"
  shows "\<exists>q. git_fs_path_resolve_relative p = (0, q) \<and> normal_path q \<and> key q = key p"
proof -
  from assms(1) obtain rest where p: "p = CHR ''/'' # rest"
    by (cases p) (auto simp: absolute_base_def is_slash_def)
  from assms(1) have root: "git_fs_path_root p = 0" by (simp add: root_zero)
  have rr: "git_fs_path_resolve_relative p = resolve_loop True ''/'' [] [] rest"
    unfolding git_fs_path_resolve_relative_def root by (simp add: p)
  from assms(2) have "stays_inside [] (split_path rest)"
    unfolding p split_path_Cons_slash by (simp add: walk_def)
  from resolve_loop_rooted [of "[]" rest "''/''" "[]"] this
  obtain ms r where res: "resolve_loop True ''/'' [] [] rest = (0, ''/'' @ concat (map (\<lambda>n. n @ ''/'') ms) @ r)"
    and ms: "list_all plain_name ms" and r: "r = [] \<or> plain_name r"
    and w: "foldl walk [] (split_path rest) = ms @ (if r = [] then [] else [r])"
    by auto
  define q where "q = CHR ''/'' # concat (map (\<lambda>n. n @ ''/'') ms) @ r"
  have msn: "list_all (\<lambda>n. \<not> list_ex is_slash n) ms"
    using ms by (auto simp: list_all_iff plain_name_def)
  have rn: "split_path r = [r]" using r by (auto simp: plain_name_def split_path_plain)
  have sp: "split_path (concat (map (\<lambda>n. n @ ''/'') ms) @ r) = ms @ [r]"
    using split_path_names [OF msn, of r] rn by simp
  have np: "normal_path q" using sp ms r by (simp add: q_def normal_path_def is_slash_def)
  have "foldl walk [] (ms @ [r]) = ms @ (if r = [] then [] else [r])"
  proof (cases "r = []")
    case True
    then show ?thesis using ms by (simp add: foldl_walk_plain walk_def)
  next
    case False
    with r have "plain_name r" by simp
    with False ms show ?thesis by (simp add: foldl_walk_plain walk_plain)
  qed
  then have "key q = ms @ (if r = [] then [] else [r])"
    unfolding q_def key_def split_path_Cons_slash sp by (simp add: walk_def)
  moreover have "key p = ms @ (if r = [] then [] else [r])"
    unfolding p key_def split_path_Cons_slash using w by (simp add: walk_def)
  ultimately show ?thesis using np rr res by (simp add: q_def)
qed

lemma joinpath_absolute:
  assumes "absolute_base B" "take 2 t = ''./'' \<or> take 3 t = ''../''"
  shows "absolute_base (git_str_joinpath B t)"
proof -
  from assms(2) obtain t' where t: "t = CHR ''.'' # t'" by (cases t) auto
  then have dw: "dropWhile is_slash t = t" by (simp add: is_slash_def)
  from assms(1) obtain r where B: "B = CHR ''/'' # r" and r: "take 1 r \<noteq> '':''"
    by (cases B) (auto simp: absolute_base_def is_slash_def)
  show ?thesis
  proof (cases r)
    case Nil
    with B dw t show ?thesis by (simp add: git_str_joinpath_def absolute_base_def is_slash_def)
  next
    case (Cons d r')
    with B r dw show ?thesis by (simp add: git_str_joinpath_def absolute_base_def is_slash_def)
  qed
qed

lemma apply_relative_rooted:
  assumes "absolute_base B" "take 2 t = ''./'' \<or> take 3 t = ''../''"
    and "stays_inside [] (split_path (git_str_joinpath B t))"
  shows "\<exists>q. git_fs_path_apply_relative B t = (0, q) \<and> normal_path q
             \<and> key q = key (git_str_joinpath B t)"
  using resolve_relative_rooted [OF joinpath_absolute [OF assms(1,2)] assms(3)]
  by (auto simp: git_fs_path_apply_relative_def)

lemma apply_relative_status:
  "fst (git_fs_path_apply_relative B t) = 0 \<or> fst (git_fs_path_apply_relative B t) = 1"
  by (simp add: git_fs_path_apply_relative_def split: prod.splits)

lemma rtrim_decompose: "\<exists>ws. c = git_str_rtrim c @ ws \<and> list_all git__isspace ws"
proof -
  have "rev c = takeWhile git__isspace (rev c) @ dropWhile git__isspace (rev c)" by simp
  then have "c = rev (dropWhile git__isspace (rev c)) @ rev (takeWhile git__isspace (rev c))"
    by (metis rev_append rev_rev_ident)
  moreover have "list_all git__isspace (rev (takeWhile git__isspace (rev c)))"
    by (auto simp: list_all_iff dest: set_takeWhileD)
  ultimately show ?thesis unfolding git_str_rtrim_def by blast
qed

lemma rtrim_last: "git_str_rtrim c = [] \<or> \<not> git__isspace (last (git_str_rtrim c))"
proof (cases "dropWhile git__isspace (rev c)")
  case Nil
  then show ?thesis by (simp add: git_str_rtrim_def)
next
  case (Cons x xs)
  then have "\<not> git__isspace x" by (metis hd_dropWhile list.sel(1) list.distinct(1))
  with Cons show ?thesis by (simp add: git_str_rtrim_def)
qed


subsection \<open>The link resolver\<close>

text \<open>
  Claim C5, as amended. For every store, base directory \<open>B\<close> and link file \<open>F\<close>:
  \<^verbatim>\<open>git_worktree__read_link\<close> fails when \<open>F\<close> under \<open>B\<close> is not a regular file. When
  it is a file with content \<open>c\<close>, the trailing white space of \<open>c\<close> is trimmed (what is
  cut off is white space, and what is left does not end in white space). The trimmed
  content is returned as it is when it is an absolute path, and whenever it does not
  begin with \<^verbatim>\<open>./\<close> or \<^verbatim>\<open>../\<close>. When the trimmed content begins with \<^verbatim>\<open>./\<close> or
  \<^verbatim>\<open>../\<close>, \<open>B\<close> is an absolute base and the content joined to \<open>B\<close> does not climb
  above the root, a path is returned that is absolute and normalised and names the same
  place as the content taken relative to \<open>B\<close>.
\<close>

theorem read_link_resolves:
  "(\<not> git_fs_path_isfile fs (git_str_joinpath B F) \<longrightarrow> git_worktree__read_link fs B F = None)
   \<and> (node_at fs (key (git_str_joinpath B F)) = Some (File c) \<longrightarrow>
        (\<exists>ws. c = git_str_rtrim c @ ws \<and> list_all git__isspace ws)
      \<and> (git_str_rtrim c = [] \<or> \<not> git__isspace (last (git_str_rtrim c)))
      \<and> (take 1 (git_str_rtrim c) = ''/'' \<longrightarrow>
            git_worktree__read_link fs B F = Some (git_str_rtrim c))
      \<and> (\<not> (take 2 (git_str_rtrim c) = ''./'' \<or> take 3 (git_str_rtrim c) = ''../'') \<longrightarrow>
            git_worktree__read_link fs B F = Some (git_str_rtrim c))
      \<and> ((take 2 (git_str_rtrim c) = ''./'' \<or> take 3 (git_str_rtrim c) = ''../'')
           \<and> absolute_base B
           \<and> stays_inside [] (split_path (git_str_joinpath B (git_str_rtrim c))) \<longrightarrow>
             (\<exists>p. git_worktree__read_link fs B F = Some p \<and> normal_path p
                  \<and> key p = key (git_str_joinpath B (git_str_rtrim c)))))"
proof -
  let ?t = "git_str_rtrim c"
  have missing: "git_worktree__read_link fs B F = None"
    if "\<not> git_fs_path_isfile fs (git_str_joinpath B F)"
    using that
    by (auto simp: git_worktree__read_link_def git_futils_readbuffer_def git_fs_path_isfile_def
             split: option.splits node.splits)
  have found: "git_worktree__read_link fs B F =
      (if \<not> git_fs_path_is_relative ?t then Some ?t
       else Some (snd (git_fs_path_apply_relative B ?t)))"
    if "node_at fs (key (git_str_joinpath B F)) = Some (File c)"
    using that apply_relative_status [of B ?t]
    by (auto simp: git_worktree__read_link_def git_futils_readbuffer_def Let_def split: prod.splits)
  have abs: "\<not> git_fs_path_is_relative ?t" if "take 1 ?t = ''/''"
    using that by (cases ?t) (auto simp: git_fs_path_is_relative_def)
  have rooted: "\<exists>p. snd (git_fs_path_apply_relative B ?t) = p \<and> normal_path p
                   \<and> key p = key (git_str_joinpath B ?t)"
    if "take 2 ?t = ''./'' \<or> take 3 ?t = ''../''" "absolute_base B"
       "stays_inside [] (split_path (git_str_joinpath B ?t))"
    using apply_relative_rooted [OF that(2) that(1) that(3)] by auto
  show ?thesis
    using missing found abs rooted rtrim_decompose [of c] rtrim_last [of c]
    by (auto simp: git_fs_path_is_relative_def)
qed

text \<open>
  The claim as first stated has every content that is not an absolute path resolved
  against the base, and the result absolute and normalised. A content without a leading
  \<^verbatim>\<open>./\<close> or \<^verbatim>\<open>../\<close> is returned as it is; a relative base gives a relative path;
  a content that climbs above the root is returned joined to the base and not
  normalised; and the base \<^verbatim>\<open>/:b\<close> is read as a drive prefix without a root, so the
  result is relative.
\<close>

theorem read_link_resolves_counterexample:
  "git_worktree__read_link [([''b''], Dir), ([''b'', ''gitdir''], File ''x\<newline>'')] ''/b'' ''gitdir''
     = Some ''x''
   \<and> take 1 ''x'' \<noteq> ''/''
   \<and> git_worktree__read_link [([''wt''], Dir), ([''wt'', ''gitdir''], File ''./x\<newline>'')] ''wt'' ''gitdir''
     = Some ''wt/x''
   \<and> take 1 ''wt/x'' \<noteq> ''/''
   \<and> git_worktree__read_link [([''b''], Dir), ([''b'', ''gitdir''], File ''../../x\<newline>'')] ''/b'' ''gitdir''
     = Some ''/b/../../x''
   \<and> \<not> normal_path ''/b/../../x''
   \<and> git_worktree__read_link [(['':b''], Dir), (['':b'', ''gitdir''], File ''./x\<newline>'')] ''/:b'' ''gitdir''
     = Some '':b/x''
   \<and> take 1 '':b/x'' \<noteq> ''/''"
  by code_simp

theorem read_link_resolves_witness:
  "git_worktree__read_link fs_demo ''/r/.git/worktrees/wt'' ''gitdir'' = Some ''/w/wt/.git''
   \<and> (\<exists>p. git_worktree__read_link fs_relative_links ''/r/.git/worktrees/wt'' ''gitdir'' = Some p
          \<and> normal_path p \<and> key p = [''w'', ''wt'', ''.git''])
   \<and> git_worktree__read_link fs_demo ''/r/.git/worktrees/wt'' ''missing'' = None"
proof -
  let ?B = "''/r/.git/worktrees/wt''"
  have a: "node_at fs_demo (key (git_str_joinpath ?B ''gitdir'')) = Some (File ''/w/wt/.git\<newline>'')"
    "git_str_rtrim ''/w/wt/.git\<newline>'' = ''/w/wt/.git''"
    by code_simp+
  have b: "node_at fs_relative_links (key (git_str_joinpath ?B ''gitdir''))
             = Some (File ''../../../../w/wt/.git  \<newline>'')"
    "git_str_rtrim ''../../../../w/wt/.git  \<newline>'' = ''../../../../w/wt/.git''"
    "absolute_base ?B"
    "stays_inside [] (split_path (git_str_joinpath ?B ''../../../../w/wt/.git''))"
    "key (git_str_joinpath ?B ''../../../../w/wt/.git'') = [''w'', ''wt'', ''.git'']"
    by code_simp+
  have c: "\<not> git_fs_path_isfile fs_demo (git_str_joinpath ?B ''missing'')"
    by code_simp
  from read_link_resolves [of fs_demo ?B "''gitdir''" "''/w/wt/.git\<newline>''"] a
  have 1: "git_worktree__read_link fs_demo ?B ''gitdir'' = Some ''/w/wt/.git''" by simp
  from read_link_resolves [of fs_relative_links ?B "''gitdir''" "''../../../../w/wt/.git  \<newline>''"] b
  have 2: "\<exists>p. git_worktree__read_link fs_relative_links ?B ''gitdir'' = Some p
              \<and> normal_path p \<and> key p = [''w'', ''wt'', ''.git'']"
    by simp
  from read_link_resolves [of fs_demo ?B "''missing''" "[]"] c
  have 4: "git_worktree__read_link fs_demo ?B ''missing'' = None" by simp
  from 1 2 4 show ?thesis by simp
qed

subsection \<open>The registry scanner\<close>

text \<open>
  The loop of \<^verbatim>\<open>git_worktree_list\<close> leaves the entries before its index as they are;
  so when it removes the invalid entry at its index, the entry that follows moves to
  that index and is in the result of every successful call, valid or not.
\<close>

lemma list_loop_prefix: "list_loop fs path i ws = (0, r) \<Longrightarrow> take i r = take i ws"
proof (induction fs path i ws rule: list_loop.induct)
  case (1 fs path i worktrees)
  note unfold = list_loop.simps [of fs path i worktrees]
  show ?case
  proof (cases "i < length worktrees")
    case False
    with "1.prems" unfold show ?thesis by simp
  next
    case True
    show ?thesis
    proof (cases "is_worktree_private_directory fs (path @ worktrees ! i)")
      case False
      with True "1.prems" unfold
      have "list_loop fs path (Suc i) (git_vector_remove worktrees i) = (0, r)"
        by simp
      from "1.IH"(1) [OF True False this]
      have "take (Suc i) r = take (Suc i) (git_vector_remove worktrees i)" .
      then have "take i (take (Suc i) r) = take i (take (Suc i) (git_vector_remove worktrees i))"
        by simp
      then show ?thesis using True by (simp add: git_vector_remove_def min_def)
    next
      case valid: True
      obtain e d where g: "get_worktree_gitdir_from_private_directory fs (path @ worktrees ! i) = (e, d)"
        by (metis surj_pair)
      with True valid "1.prems" unfold have ne: "\<not> e < 0"
        and l: "list_loop fs path (Suc i) (worktrees[i := worktrees ! i]) = (0, r)"
        by (auto split: if_splits)
      from valid have v: "\<not> \<not> is_worktree_private_directory fs (path @ worktrees ! i)" by simp
      from "1.IH"(2) [OF True v g [symmetric] ne l]
      have "take (Suc i) r = take (Suc i) (worktrees[i := worktrees ! i])" .
      then have "take i (take (Suc i) r) = take i (take (Suc i) worktrees)" by simp
      then show ?thesis by (simp add: min_def)
    qed
  qed
qed

lemma list_loop_keeps_follower:
  assumes "Suc i < length ws"
    and "\<not> is_worktree_private_directory fs (path @ ws ! i)"
    and "list_loop fs path i ws = (0, r)"
  shows "i < length r \<and> r ! i = ws ! Suc i"
proof -
  from assms list_loop.simps [of fs path i ws]
  have "list_loop fs path (Suc i) (git_vector_remove ws i) = (0, r)" by simp
  then have t: "take (Suc i) r = take (Suc i) (git_vector_remove ws i)" by (rule list_loop_prefix)
  have len: "Suc i \<le> length (git_vector_remove ws i)"
    using assms(1) by (simp add: git_vector_remove_def)
  have "length (take (Suc i) r) = Suc i" using t len by simp
  then have a: "i < length r" by simp
  have "r ! i = take (Suc i) r ! i" by simp
  also have "\<dots> = git_vector_remove ws i ! i" using t by simp
  also have "\<dots> = ws ! Suc i" using assms(1) by (simp add: git_vector_remove_def nth_append)
  finally show ?thesis using a by simp
qed

text \<open>
  The loop of \<^verbatim>\<open>git_worktree_lookup\<close> stops at the first entry that ends the scan, with
  the error of that entry or with the worktree opened from it; when no entry ends the
  scan of an existing registry with entries, the call fails with \<^verbatim>\<open>-1\<close>.
\<close>

lemma lookup_loop_first:
  "lookup_loop fs repo wname path ws =
     (case find (ends_scan fs path wname) ws of
        None \<Rightarrow> (0, 0, None)
      | Some w \<Rightarrow>
          (if fst (get_worktree_gitdir_from_private_directory fs (path @ w)) < 0
           then (fst (get_worktree_gitdir_from_private_directory fs (path @ w)), 0, None)
           else (case open_worktree_dir fs (workdir repo) (path @ w) wname of
                   (error, out) \<Rightarrow> if error < 0 then (error, 0, None) else (error, 1, out))))"
  by (induction ws) (auto simp: ends_scan_def split: prod.splits)

lemma lookup_exhausted:
  assumes "git_fs_path_exists fs (git_str_joinpath (commondir repo) ''worktrees/'')"
    and "\<not> git_fs_path_is_empty_dir fs (git_str_joinpath (commondir repo) ''worktrees/'')"
    and "git_fs_path_dirload fs (git_str_joinpath (commondir repo) ''worktrees/'') = (0, ws)"
    and "find (ends_scan fs (git_str_joinpath (commondir repo) ''worktrees/'') wname) ws = None"
  shows "git_worktree_lookup found0 fs repo wname = (- 1, None)"
  using assms by (simp add: git_worktree_lookup_def lookup_loop_first)

text \<open>
  Claim C4 says that \<^verbatim>\<open>git_worktree_list\<close> returns exactly the entries of
  \<^verbatim>\<open>worktrees/\<close> that are valid private directories. The loop removes an invalid entry
  from the vector it runs over and then moves on to the next index, so the entry that
  follows an invalid one is not looked at: with the two invalid entries \<^verbatim>\<open>a\<close> and
  \<^verbatim>\<open>b\<close> the result holds \<^verbatim>\<open>b\<close>.
\<close>

theorem list_keeps_invalid_entry:
  "git_worktree_list fs_two_invalid repo_demo = (0, [''b''])
   \<and> git_fs_path_dirload fs_two_invalid ''/r/.git/worktrees/'' = (0, [''a'', ''b''])
   \<and> \<not> is_worktree_private_directory fs_two_invalid ''/r/.git/worktrees/a''
   \<and> \<not> is_worktree_private_directory fs_two_invalid ''/r/.git/worktrees/b''"
  by code_simp

theorem list_keeps_invalid_entry_witness:
  "''b'' \<in> set (snd (git_worktree_list fs_two_invalid repo_demo))"
  using list_keeps_invalid_entry by simp

text \<open>
  Claim C2 says that \<^verbatim>\<open>git_worktree_lookup\<close> fails with the not-found error whenever no
  entry of \<^verbatim>\<open>worktrees/\<close> matches. When \<^verbatim>\<open>worktrees/\<close> is missing or empty the
  function leaves before \<^verbatim>\<open>found\<close> has a value, and its status is decided by whatever
  the variable holds: success with no worktree when that is not zero.
\<close>

theorem lookup_reads_unset_found:
  "git_worktree_lookup 1 fs_no_registry repo_demo ''wt'' = (0, None)
   \<and> git_worktree_lookup 0 fs_no_registry repo_demo ''wt'' = (- 1, None)
   \<and> \<not> git_fs_path_exists fs_no_registry ''/r/.git/worktrees/''
   \<and> git_worktree_lookup 1 fs_empty_registry repo_demo ''wt'' = (0, None)
   \<and> git_fs_path_is_empty_dir fs_empty_registry ''/r/.git/worktrees/''"
  by code_simp

theorem lookup_reads_unset_found_witness:
  "fst (git_worktree_lookup 1 fs_no_registry repo_demo ''wt'') = 0"
  using lookup_reads_unset_found by simp

subsection \<open>Locking and unlocking\<close>

lemma exists_locked_marker:
  "git_fs_path_exists fs (git_str_joinpath (gitdir_path wt) ''locked'') = has_lock_marker fs wt"
  by (simp add: git_fs_path_exists_def has_lock_marker_def key_joinpath_plain node_at_def)

lemma is_locked_no_reason:
  "git_worktree_is_locked fs False wt = (if has_lock_marker fs wt then 1 else 0, [])"
  by (simp add: git_worktree_is_locked_def git_worktree__is_locked_def exists_locked_marker)

lemma is_locked_marker:
  assumes "node_at s (key (gitdir_path wt) @ [''locked'']) = Some (File c)"
  shows "git_worktree_is_locked s True wt = (1, c)"
proof -
  have k: "key (git_str_joinpath (gitdir_path wt) ''locked'') = key (gitdir_path wt) @ [''locked'']"
    by (simp add: key_joinpath_plain)
  show ?thesis
    using assms
    by (simp add: git_worktree_is_locked_def git_worktree__is_locked_def git_fs_path_exists_def
          git_futils_readbuffer_def k)
qed

text \<open>
  Claim C6. For every store and worktree: \<^verbatim>\<open>git_worktree_lock\<close> on a worktree whose lock
  marker exists fails with \<^verbatim>\<open>GIT_ELOCKED\<close> and leaves the store and the structure as
  they were (nothing is created); \<^verbatim>\<open>git_worktree_unlock\<close> on a worktree without a lock
  marker returns 1, the "not locked" answer, and not 0, and changes nothing.
\<close>

theorem lock_unlock_boundary:
  "(has_lock_marker fs wt \<longrightarrow> git_worktree_lock fs wt reason = (GIT_ELOCKED, wt, fs))
   \<and> (\<not> has_lock_marker fs wt \<longrightarrow> git_worktree_unlock fs wt = (1, wt, fs))"
  by (simp add: git_worktree_lock_def git_worktree_unlock_def is_locked_no_reason)

lemma fs_locked_marker: "has_lock_marker fs_locked wt_demo"
  by (simp add: has_lock_marker_def wt_demo_def fs_locked_def fs_demo_def key_def walk_def node_at_def is_slash_def)

lemma fs_demo_no_marker: "\<not> has_lock_marker fs_demo wt_demo"
  by (simp add: has_lock_marker_def wt_demo_def fs_demo_def key_def walk_def node_at_def is_slash_def)

theorem lock_unlock_boundary_witness:
  "has_lock_marker fs_locked wt_demo
   \<and> git_worktree_lock fs_locked wt_demo (Some ''again'') = (- 14, wt_demo, fs_locked)
   \<and> \<not> has_lock_marker fs_demo wt_demo
   \<and> git_worktree_unlock fs_demo wt_demo = (1, wt_demo, fs_demo)"
  using lock_unlock_boundary [of fs_locked wt_demo "Some ''again''"]
        lock_unlock_boundary [of fs_demo wt_demo None]
        fs_locked_marker fs_demo_no_marker
  by simp

subsection \<open>The prune policy\<close>

lemma check_version_supported:
  "git_error__check_version (map_option version opts) GIT_WORKTREE_PRUNE_OPTIONS_VERSION < 0
     \<longleftrightarrow> \<not> supported_version opts"
  by (cases opts) (auto simp: git_error__check_version_def supported_version_def)

lemma is_locked_status:
  "fst (git_worktree__is_locked fs want wt) = 1 \<or> fst (git_worktree__is_locked fs want wt) = 0
   \<or> fst (git_worktree__is_locked fs want wt) = GIT_ENOTFOUND"
  by (auto simp: git_worktree__is_locked_def Let_def git_futils_readbuffer_def
           split: option.splits node.splits)

lemma is_prunable_unfold:
  assumes "supported_version opts"
  shows "git_worktree_is_prunable fs wt opts =
     (if \<not> allow_locked opts \<and> fst (git_worktree__is_locked fs True wt) < 0
      then (fst (git_worktree__is_locked fs True wt), None)
      else if \<not> allow_locked opts \<and> fst (git_worktree__is_locked fs True wt) \<noteq> 0
      then (0, Some (locked_message
                 (if snd (git_worktree__is_locked fs True wt) = [] then ''no reason given''
                  else snd (git_worktree__is_locked fs True wt))))
      else if \<not> allow_valid opts \<and> git_worktree_validate fs wt = 0
      then (0, Some ''not pruning valid working tree'')
      else (1, None))"
  using assms check_version_supported [of opts]
  by (auto simp: git_worktree_is_prunable_def Let_def allow_locked_def allow_valid_def
                 effective_flags_def locked_message_def split: prod.splits)

text \<open>
  Claim C7, as amended. For every store, worktree and prune options: options of an
  unsupported version give \<^verbatim>\<open>-1\<close>. For options that are absent or of version 1:
  when the allow-locked flag is unset and the lock query reports the worktree locked,
  \<^verbatim>\<open>git_worktree_is_prunable\<close> returns 0 and reports the lock reason, which is
  "no reason given" when the lock file is empty; when that query fails, its negative
  status is returned; when the worktree is not locked or the allow-locked flag is set,
  a worktree that passes \<^verbatim>\<open>git_worktree_validate\<close> while the allow-valid flag is unset
  gives 0; and the result is 1 exactly when each guard is satisfied (not locked, not
  valid) or bypassed by its flag.
\<close>

theorem prune_guards:
  "(\<not> supported_version opts \<longrightarrow> fst (git_worktree_is_prunable fs wt opts) = - 1)
   \<and> (supported_version opts \<longrightarrow>
       (\<not> allow_locked opts \<and> git_worktree__is_locked fs True wt = (1, reason) \<longrightarrow>
          git_worktree_is_prunable fs wt opts =
            (0, Some (locked_message (if reason = [] then ''no reason given'' else reason))))
     \<and> (\<not> allow_locked opts \<and> fst (git_worktree__is_locked fs True wt) < 0 \<longrightarrow>
          fst (git_worktree_is_prunable fs wt opts) = fst (git_worktree__is_locked fs True wt))
     \<and> ((allow_locked opts \<or> fst (git_worktree__is_locked fs True wt) = 0)
          \<and> \<not> allow_valid opts \<and> git_worktree_validate fs wt = 0 \<longrightarrow>
          fst (git_worktree_is_prunable fs wt opts) = 0)
     \<and> (fst (git_worktree_is_prunable fs wt opts) = 1 \<longleftrightarrow>
          (allow_locked opts \<or> fst (git_worktree__is_locked fs True wt) = 0)
          \<and> (allow_valid opts \<or> git_worktree_validate fs wt \<noteq> 0)))"
proof -
  have bad: "fst (git_worktree_is_prunable fs wt opts) = - 1" if "\<not> supported_version opts"
    using that check_version_supported [of opts] by (simp add: git_worktree_is_prunable_def)
  have good: "supported_version opts \<Longrightarrow> ?thesis"
    using is_locked_status [of fs True wt]
    by (auto simp: is_prunable_unfold)
  from bad good show ?thesis by blast
qed

text \<open>
  The claim as first stated (0 whenever the worktree passes validation and the
  allow-valid flag is unset; 0 whenever it is locked and the allow-locked flag is unset)
  fails where the function returns an error instead: with a directory in place of the
  lock file the lock query cannot read the reason, and with options of version 0 the
  version check fails.
\<close>

theorem prune_guards_counterexample:
  "git_worktree_validate fs_lock_dir wt_demo = 0
   \<and> \<not> allow_valid (Some \<lparr> version = 1, flags = 0 \<rparr>)
   \<and> fst (git_worktree_is_prunable fs_lock_dir wt_demo (Some \<lparr> version = 1, flags = 0 \<rparr>)) = - 3
   \<and> fst (git_worktree__is_locked fs_locked True wt_demo) = 1
   \<and> \<not> allow_locked (Some \<lparr> version = 0, flags = 0 \<rparr>)
   \<and> fst (git_worktree_is_prunable fs_locked wt_demo (Some \<lparr> version = 0, flags = 0 \<rparr>)) = - 1"
  by code_simp

theorem prune_guards_witness:
  "supported_version None \<and> \<not> allow_locked None \<and> \<not> allow_valid None
   \<and> git_worktree__is_locked fs_locked_empty True wt_demo = (1, [])
   \<and> git_worktree_is_prunable fs_locked_empty wt_demo None
       = (0, Some (locked_message ''no reason given''))
   \<and> git_worktree__is_locked fs_demo True wt_demo = (0, [])
   \<and> git_worktree_validate fs_demo wt_demo = 0
   \<and> fst (git_worktree_is_prunable fs_demo wt_demo None) = 0
   \<and> allow_valid (Some \<lparr> version = 1, flags = 1 \<rparr>)
   \<and> fst (git_worktree_is_prunable fs_demo wt_demo (Some \<lparr> version = 1, flags = 1 \<rparr>)) = 1
   \<and> fst (git_worktree_is_prunable fs_lock_dir wt_demo None) = - 3
   \<and> fst (git_worktree_is_prunable fs_demo wt_demo (Some \<lparr> version = 2, flags = 1 \<rparr>)) = - 1"
proof -
  have a: "supported_version None" "\<not> allow_locked None" "\<not> allow_valid None"
    "supported_version (Some \<lparr> version = 1, flags = 1 \<rparr>)"
    "allow_valid (Some \<lparr> version = 1, flags = 1 \<rparr>)"
    "\<not> allow_locked (Some \<lparr> version = 1, flags = 1 \<rparr>)"
    "\<not> supported_version (Some \<lparr> version = 2, flags = 1 \<rparr>)"
    by code_simp+
  have b: "git_worktree__is_locked fs_locked_empty True wt_demo = (1, [])"
    "git_worktree__is_locked fs_demo True wt_demo = (0, [])"
    "git_worktree_validate fs_demo wt_demo = 0"
    "git_worktree__is_locked fs_lock_dir True wt_demo = (- 3, [])"
    by code_simp+
  show ?thesis
    using prune_guards [of None fs_locked_empty wt_demo "[]"]
          prune_guards [of None fs_demo wt_demo "[]"]
          prune_guards [of "Some \<lparr> version = 1, flags = 1 \<rparr>" fs_demo wt_demo "[]"]
          prune_guards [of None fs_lock_dir wt_demo "[]"]
          prune_guards [of "Some \<lparr> version = 2, flags = 1 \<rparr>" fs_demo wt_demo "[]"]
          a b
    by simp
qed

subsection \<open>Pruning\<close>





lemma under_Nil: "under k [] \<longleftrightarrow> k = []"
  by (auto simp: under_def)









subsection \<open>The suffix search of add\<close>

lemma candidate_0: "candidate b 0 = b"
  by (simp add: candidate_def)

lemma candidate_Suc: "candidate b (Suc k) = candidate b k @ decimal (Suc k)"
  by (simp add: candidate_def)

lemma length_decimal: "n < 1000 \<Longrightarrow> length (decimal n) \<le> 3"
  by (subst decimal.simps, subst decimal.simps, subst decimal.simps) simp

lemma sint_counter: "n \<le> 127 \<Longrightarrow> sint (of_nat n :: 8 word) = int n"
  by (simp add: signed_of_nat signed_take_bit_int_eq_self)

lemma sprintf_d_nat: "sprintf_d (int n) = decimal n"
  by (simp add: sprintf_d_def)

lemma suffix_loop_step:
  assumes "Suc k \<le> 127"
    and "git_fs_path_exists fs (git_str_joinpath gitdir (candidate b k))"
  shows "suffix_loop fs gitdir (candidate b k) (of_nat (Suc k))
         = suffix_loop fs gitdir (candidate b (Suc k)) (of_nat (Suc (Suc k)))"
proof -
  have s: "sint (of_nat (Suc k) :: 8 word) = int (Suc k)" using assms(1) by (rule sint_counter)
  have l: "length (decimal (Suc k)) \<le> 3" using assms(1) by (intro length_decimal) simp
  have n: "(of_nat (Suc k) :: 8 word) + 1 = of_nat (Suc (Suc k))" by simp
  show ?thesis
    using assms(2) l
    by (subst suffix_loop.simps) (simp only: s sprintf_d_nat n candidate_Suc, simp)
qed

lemma suffix_loop_free:
  assumes "\<not> git_fs_path_exists fs (git_str_joinpath gitdir nm)"
  shows "suffix_loop fs gitdir nm suffix = Free_name (git_str_joinpath gitdir nm) nm"
  using assms by (subst suffix_loop.simps) simp

lemma suffix_loop_from:
  assumes "k \<le> 127"
    and "\<forall>j. k0 \<le> j \<and> j < k \<longrightarrow> git_fs_path_exists fs (git_str_joinpath gitdir (candidate b j))"
    and "\<not> git_fs_path_exists fs (git_str_joinpath gitdir (candidate b k))"
    and "k0 \<le> k"
  shows "suffix_loop fs gitdir (candidate b k0) (of_nat (Suc k0))
         = Free_name (git_str_joinpath gitdir (candidate b k)) (candidate b k)"
  using assms
proof (induction "k - k0" arbitrary: k0)
  case 0
  then have "k0 = k" by simp
  with 0 show ?case by (simp add: suffix_loop_free)
next
  case (Suc d)
  then have lt: "k0 < k" by simp
  with Suc.prems have ex: "git_fs_path_exists fs (git_str_joinpath gitdir (candidate b k0))" by simp
  from lt Suc.prems(1) have le: "Suc k0 \<le> 127" by simp
  have "suffix_loop fs gitdir (candidate b (Suc k0)) (of_nat (Suc (Suc k0)))
        = Free_name (git_str_joinpath gitdir (candidate b k)) (candidate b k)"
    using Suc.hyps(2) Suc.prems lt by (intro Suc.hyps(1)) auto
  then show ?case using suffix_loop_step [OF le ex] by simp
qed

lemma suffix_loop_start:
  "suffix_loop fs gitdir b 1 = suffix_loop fs gitdir (candidate b 0) (of_nat (Suc 0))"
  by (simp add: candidate_0)

text \<open>
  In every store the suffix loop tries the basename, then the basename followed by the
  digits of 1, then by the digits of 1 and 2, and so on: it ends with the first of these
  names that is free, as long as that is one of the first 128.
\<close>

lemma suffix_search_candidates:
  assumes "(if \<not> git_fs_path_exists fs (git_str_joinpath (commondir repo) ''worktrees'')
            then git_futils_mkdir_excl fs (git_str_joinpath (commondir repo) ''worktrees'')
            else (0, fs)) = (0, fs1)"
    and "k \<le> 127"
    and "\<forall>j<k. git_fs_path_exists fs1
            (git_str_joinpath (git_str_joinpath (commondir repo) ''worktrees'')
               (candidate (git_fs_path_basename worktree) j))"
    and "\<not> git_fs_path_exists fs1
            (git_str_joinpath (git_str_joinpath (commondir repo) ''worktrees'')
               (candidate (git_fs_path_basename worktree) k))"
  shows "suffix_loop fs1 (git_str_joinpath (commondir repo) ''worktrees'')
            (git_fs_path_basename worktree) 1
         = Free_name (git_str_joinpath (git_str_joinpath (commondir repo) ''worktrees'')
                        (candidate (git_fs_path_basename worktree) k))
                     (candidate (git_fs_path_basename worktree) k)
       \<and> add_private_dir fs repo worktree
         = Some (create_private_dir fs1
                   (git_str_joinpath (git_str_joinpath (commondir repo) ''worktrees'')
                      (candidate (git_fs_path_basename worktree) k)))"
proof -
  let ?g = "git_str_joinpath (commondir repo) ''worktrees''"
  let ?b = "git_fs_path_basename worktree"
  have s: "suffix_loop fs1 ?g ?b 1 = Free_name (git_str_joinpath ?g (candidate ?b k)) (candidate ?b k)"
    unfolding suffix_loop_start using assms(2,3,4) by (intro suffix_loop_from) auto
  show ?thesis using s assms(1) by (simp add: add_private_dir_def Let_def)
qed

text \<open>
  Claim C3 says that a taken name gets the suffixes 1, 2, ... up to 255, each appended
  to the basename of the working directory, and that \<^verbatim>\<open>git_worktree_add\<close> fails after
  256 collisions. The loop of lines 480 to 492 appends the rendering of its counter to
  the name it has built so far and has no bound and no error exit, and its counter is an
  \<^verbatim>\<open>int8_t\<close> where the comment of lines 430 and 431 speaks of 255. Three calls for
  working directories with the basename \<^verbatim>\<open>wt\<close>, on a repository without worktrees:
  each succeeds; the first creates \<^verbatim>\<open>wt\<close>, the second \<^verbatim>\<open>wt1\<close>, and the third
  \<^verbatim>\<open>wt12\<close>, while \<^verbatim>\<open>wt2\<close> is free.
\<close>

theorem add_suffix_accumulates:
  "(case git_worktree_add plain_subsystems 0 fs_no_registry repo_demo ''one'' ''/a/wt'' None of
      None \<Rightarrow> None
    | Some (e1, o1, s1) \<Rightarrow>
   (case git_worktree_add plain_subsystems 0 s1 repo_demo ''two'' ''/b/wt'' None of
      None \<Rightarrow> None
    | Some (e2, o2, s2) \<Rightarrow>
   (case git_worktree_add plain_subsystems 0 s2 repo_demo ''three'' ''/c/wt'' None of
      None \<Rightarrow> None
    | Some (e3, o3, s3) \<Rightarrow>
        Some ([e1, e2, e3], registry s1 repo_demo, set (registry s2 repo_demo),
              suffix_loop s2 ''/r/.git/worktrees'' ''wt'' 1,
              git_fs_path_exists s2 ''/r/.git/worktrees/wt2'',
              set (registry s3 repo_demo)))))
   = Some ([0, 0, 0], [''wt''], {''wt'', ''wt1''},
           Free_name ''/r/.git/worktrees/wt12'' ''wt12'', False,
           {''wt'', ''wt1'', ''wt12''})"
  by code_simp

theorem add_suffix_accumulates_witness:
  "\<exists>s out s'. git_worktree_add plain_subsystems 0 s repo_demo ''three'' ''/c/wt'' None
                    = Some (0, out, s')
               \<and> \<not> git_fs_path_exists s ''/r/.git/worktrees/wt2''
               \<and> set (registry s' repo_demo) = {''wt'', ''wt1'', ''wt12''}"
  using add_suffix_accumulates by (fastforce split: option.splits prod.splits)

subsection \<open>Adding with the lock option\<close>

lemma writebuffer_excl_keeps:
  "node_at s K = Some v \<Longrightarrow> node_at (snd (git_futils_writebuffer_excl s p buf)) K = Some v"
  by (simp add: git_futils_writebuffer_excl_def node_at_append_keep)

lemma write_wtfile_keeps:
  "write_wtfile s base file buf = (e, s') \<Longrightarrow> node_at s K = Some v \<Longrightarrow> node_at s' K = Some v"
  using writebuffer_excl_keeps [of s K v "git_str_joinpath base file" buf]
  by (simp add: write_wtfile_def)

lemma map_of_truncate:
  "map_of s K = Some (File c) \<Longrightarrow>
   map_of (map (\<lambda>(k, n). if k = K then (k, File []) else (k, n)) s) K = Some (File [])"
  by (induction s) (auto split: if_splits)

lemma p_creat_marker:
  assumes "p_creat s (git_str_joinpath gitdir ''locked'') = (fd, s')" and "\<not> fd < 0"
  shows "node_at s' (key gitdir @ [''locked'']) = Some (File [])"
proof -
  have k: "key (git_str_joinpath gitdir ''locked'') = key gitdir @ [''locked'']"
    by (simp add: key_joinpath_plain)
  show ?thesis
    using assms unfolding p_creat_def k
    by (auto simp: node_at_def map_of_truncate map_add_def split: option.splits node.splits if_splits)
qed

lemma add_files_marker:
  assumes "add_files s repo gitdir worktree lck = Inr (wddir, s')" and "lck \<noteq> 0"
  shows "node_at s' (key gitdir @ [''locked'']) = Some (File [])"
proof -
  from assms obtain s1 fd s2 e3 s3 pc e4 s4 e5 where
    c: "p_creat s1 (git_str_joinpath gitdir ''locked'') = (fd, s2)" "\<not> fd < 0"
    and w3: "write_wtfile s2 wddir ''.git'' (''gitdir: '' @ gitdir @ ''\<newline>'') = (e3, s3)"
    and w4: "write_wtfile s3 gitdir ''commondir'' (pc @ ''\<newline>'') = (e4, s4)"
    and w5: "write_wtfile s4 gitdir ''gitdir'' (git_str_joinpath wddir ''.git'' @ ''\<newline>'') = (e5, s')"
    unfolding add_files_def
    by (auto split: prod.splits sum.splits if_splits)
  from p_creat_marker [OF c] have "node_at s2 (key gitdir @ [''locked'']) = Some (File [])" .
  then have "node_at s3 (key gitdir @ [''locked'']) = Some (File [])" using w3 write_wtfile_keeps by blast
  then have "node_at s4 (key gitdir @ [''locked'']) = Some (File [])" using w4 write_wtfile_keeps by blast
  then show ?thesis using w5 write_wtfile_keeps by blast
qed

lemma add_checkout_keeps:
  assumes "keeps_marker sub gitdir"
    and "add_checkout sub found0 s repo wname worktree g wddir wref = (err, out, s')"
  shows "node_at s' (key gitdir @ [''locked'']) = node_at s (key gitdir @ [''locked''])"
proof -
  let ?K = "key gitdir @ [''locked'']"
  from assms(1) have b: "\<And>s n. node_at (snd (snd (create_branch sub s n))) ?K = node_at s ?K"
    and h: "\<And>s g r. node_at (snd (git_repository_create_head sub s g r)) ?K = node_at s ?K"
    and c: "\<And>s w. node_at (snd (checkout sub s w)) ?K = node_at s ?K"
    by (auto simp: keeps_marker_def)
  obtain e1 rn s1 where r1: "(case wref of Some given \<Rightarrow> (0, given, s) | None \<Rightarrow> create_branch sub s wname) = (e1, rn, s1)"
    by (metis prod_cases3)
  have k1: "node_at s1 ?K = node_at s ?K"
    using r1 b [of s wname] by (cases wref) auto
  obtain e2 s2 where r2: "git_repository_create_head sub s1 g rn = (e2, s2)" by (metis surj_pair)
  have k2: "node_at s2 ?K = node_at s ?K" using r2 h [of s1 g rn] k1 by simp
  obtain e3 s3 where r3: "checkout sub s2 wddir = (e3, s3)" by (metis surj_pair)
  have k3: "node_at s3 ?K = node_at s ?K" using r3 c [of s2 wddir] k2 by simp
  have "s' = s1 \<or> s' = s2 \<or> s' = s3"
    using assms(2) r1 r2 r3 unfolding add_checkout_def
    by (auto split: prod.splits if_splits)
  with k1 k2 k3 show ?thesis by auto
qed

text \<open>
  With the lock option, the empty \<^verbatim>\<open>locked\<close> marker of the new private directory is in
  the store before the reference, the head and the checkout are made, and it is still
  there, and empty, when \<^verbatim>\<open>git_worktree_add\<close> returns, with whatever status: the lock
  query on a worktree with this private directory answers 1 with an empty reason.
\<close>

lemma add_marker_survives:
  assumes "add_files fs1 repo gitdir worktree lck = Inr (wddir, fs2)" and "lck \<noteq> 0"
    and "keeps_marker sub gitdir"
    and "add_checkout sub found0 fs2 repo wname worktree gitdir wddir wref = (err, out, fs')"
    and "gitdir_path wt = gitdir"
  shows "node_at fs2 (key gitdir @ [''locked'']) = Some (File [])
       \<and> node_at fs' (key gitdir @ [''locked'']) = Some (File [])
       \<and> git_worktree_is_locked fs' True wt = (1, [])"
proof -
  have m2: "node_at fs2 (key gitdir @ [''locked'']) = Some (File [])"
    using assms(1,2) by (rule add_files_marker)
  have m3: "node_at fs' (key gitdir @ [''locked'']) = Some (File [])"
    using add_checkout_keeps [OF assms(3,4)] m2 by simp
  have "git_worktree_is_locked fs' True wt = (1, [])"
    using m3 assms(5) by (intro is_locked_marker) simp
  with m2 m3 show ?thesis by simp
qed

text \<open>
  When no older worktree has the basename of the new working directory, the final
  lookup finds the new private directory and the worktree that is returned is locked.
\<close>

lemma add_lock_fresh_basename:
  "(case git_worktree_add plain_subsystems 0 fs_demo repo_demo ''feature'' ''/y/other''
           (Some \<lparr> version = 1, lock = 1, ref = None \<rparr>) of
      None \<Rightarrow> None
    | Some (e, out, s) \<Rightarrow>
        Some (e, map_option worktree_path out, map_option gitdir_path out,
              map_option locked out, map_option (git_worktree_is_locked s True) out))
   = Some (0, Some ''/y/other'', Some ''/r/.git/worktrees/other/'', Some True, Some (1, []))"
  by code_simp

text \<open>
  Claim C8 says that the worktree \<^verbatim>\<open>git_worktree_add\<close> returns for a call with the lock
  option is locked, with an empty reason. The marker is created in the new private
  directory, but the result is loaded by \<^verbatim>\<open>git_worktree_lookup\<close> with the path of the
  working directory (line 579), which takes the first entry of the registry whose
  working directory has the same basename. Two calls on a repository without worktrees,
  the first for \<^verbatim>\<open>/w/wt\<close> without the lock option and the second for \<^verbatim>\<open>/y/wt\<close> with
  it: both succeed, the second creates \<^verbatim>\<open>wt1\<close> for \<^verbatim>\<open>/y/wt\<close> with an empty
  \<^verbatim>\<open>locked\<close> marker, and returns the worktree of \<^verbatim>\<open>wt\<close>: its working directory is
  \<^verbatim>\<open>/w/wt\<close>, it is not locked, and the lock query on it answers 0.
\<close>

theorem add_returns_older_worktree:
  "(case git_worktree_add plain_subsystems 0 fs_no_registry repo_demo ''wt'' ''/w/wt'' None of
      None \<Rightarrow> None
    | Some (e1, o1, s1) \<Rightarrow>
   (case git_worktree_add plain_subsystems 0 s1 repo_demo ''feature'' ''/y/wt''
           (Some \<lparr> version = 1, lock = 1, ref = None \<rparr>) of
      None \<Rightarrow> None
    | Some (e2, o2, s2) \<Rightarrow>
        Some ([e1, e2], map_option worktree_path o2, map_option gitdir_path o2,
              map_option locked o2, map_option (git_worktree_is_locked s2 True) o2,
              node_at s2 [''r'', ''.git'', ''worktrees'', ''wt1'', ''locked''],
              node_at s2 [''r'', ''.git'', ''worktrees'', ''wt1'', ''gitdir''],
              node_at s2 [''r'', ''.git'', ''worktrees'', ''wt'', ''locked''])))
   = Some ([0, 0], Some ''/w/wt'', Some ''/r/.git/worktrees/wt/'', Some False, Some (0, []),
           Some (File []), Some (File ''/y/wt/.git\<newline>''), None)"
  by code_simp

theorem add_returns_older_worktree_witness:
  "\<exists>s wt s'. git_worktree_add plain_subsystems 0 s repo_demo ''feature'' ''/y/wt''
                  (Some \<lparr> version = 1, lock = 1, ref = None \<rparr>) = Some (0, Some wt, s')
             \<and> \<not> locked wt
             \<and> node_at s' [''r'', ''.git'', ''worktrees'', ''wt1'', ''locked''] = Some (File [])"
  using add_returns_older_worktree by (fastforce split: option.splits prod.splits)

subsection \<open>Freeing\<close>

lemma worktree_free_each:
  "git_worktree_free (Some (a, m)) heap =
     free_each [commondir_path_ptr m, worktree_path_ptr m, gitlink_path_ptr m,
                gitdir_path_ptr m, parent_path_ptr m, name_ptr m, Some a] heap"
  by (simp add: git_worktree_free_def split: option.splits)

lemma free_each_distinct:
  "distinct (non_null ps) \<Longrightarrow> set (non_null ps) \<subseteq> heap \<Longrightarrow>
   free_each ps heap = Some (heap - set (non_null ps))"
proof (induction ps arbitrary: heap)
  case Nil
  then show ?case by simp
next
  case (Cons p ps)
  show ?case
  proof (cases p)
    case None
    with Cons show ?thesis by (simp add: git__free_def)
  next
    case (Some a)
    with Cons.prems have d: "distinct (non_null ps)"
      and sub: "set (non_null ps) \<subseteq> heap - {a}" and ain: "a \<in> heap"
      by auto
    from Cons.IH [OF d sub] Some ain show ?thesis
      by (auto simp: git__free_def)
  qed
qed

text \<open>
  Claim C10. \<^verbatim>\<open>git_worktree_free(NULL)\<close> returns with the heap unchanged. For a structure
  whose string pointers and own address are distinct live allocations, the call is
  defined (no pointer is released twice) and releases exactly those allocations: every
  owned string field once, and the structure.
\<close>

theorem worktree_free_safe:
  "git_worktree_free None heap = Some heap
   \<and> (distinct (owned_pointers (a, m)) \<and> set (owned_pointers (a, m)) \<subseteq> heap \<longrightarrow>
        git_worktree_free (Some (a, m)) heap = Some (heap - set (owned_pointers (a, m))))"
proof -
  have "git_worktree_free None heap = Some heap" by (simp add: git_worktree_free_def)
  moreover have "git_worktree_free (Some (a, m)) heap = Some (heap - set (owned_pointers (a, m)))"
    if "distinct (owned_pointers (a, m))" "set (owned_pointers (a, m)) \<subseteq> heap"
    using free_each_distinct [of "[commondir_path_ptr m, worktree_path_ptr m, gitlink_path_ptr m,
                gitdir_path_ptr m, parent_path_ptr m, name_ptr m, Some a]" heap] that
    unfolding worktree_free_each owned_pointers_def by simp
  ultimately show ?thesis by blast
qed

theorem worktree_free_safe_witness:
  "git_worktree_free None {10, 11, 12, 13, 14, 15, 99} = Some {10, 11, 12, 13, 14, 15, 99}
   \<and> git_worktree_free (Some (10, mem_demo)) {10, 11, 12, 13, 14, 15, 99} = Some {99}"
proof -
  have o: "owned_pointers (10, mem_demo) = [15, 12, 13, 14, 11, 10]"
    by (simp add: owned_pointers_def mem_demo_def)
  have "{10, 11, 12, 13, 14, 15, 99} - set [15, 12, 13, 14, 11, 10] = {99::nat}" by auto
  then show ?thesis
    using worktree_free_safe [of "{10, 11, 12, 13, 14, 15, 99}" 10 mem_demo] unfolding o by simp
qed

end
